theory Spec2Isabelle
  imports Complex_Main "HOL-Library.Word"
begin

section \<open>JavaScript values used by \<^verbatim>\<open>app.ts\<close>\<close>

text \<open>
  A JavaScript string is a sequence of 16-bit code units; \<^verbatim>\<open>length\<close> counts code units.
\<close>

type_synonym jsstring = "16 word list"

text \<open>
  A JavaScript number is an IEEE double. The program only compares numbers (it performs
  no arithmetic on them), and comparison of doubles is exact, so a finite double is
  represented by the rational number it denotes; the three non-finite doubles are
  separate constructors. Every double is a value of this type.
\<close>

datatype number = Finite rat | PosInfinity | NegInfinity | NaN

text \<open>The relational operators on numbers: every comparison with \<^verbatim>\<open>NaN\<close> is false.\<close>

fun js_lt :: "number \<Rightarrow> number \<Rightarrow> bool" where
  "js_lt NaN _ = False"
| "js_lt _ NaN = False"
| "js_lt (Finite x) (Finite y) = (x < y)"
| "js_lt (Finite _) PosInfinity = True"
| "js_lt (Finite _) NegInfinity = False"
| "js_lt PosInfinity _ = False"
| "js_lt NegInfinity NegInfinity = False"
| "js_lt NegInfinity _ = True"

definition js_gt :: "number \<Rightarrow> number \<Rightarrow> bool" where
  "js_gt a b = js_lt b a"

fun js_le :: "number \<Rightarrow> number \<Rightarrow> bool" where
  "js_le NaN _ = False"
| "js_le _ NaN = False"
| "js_le a b = (\<not> js_lt b a)"

definition js_ge :: "number \<Rightarrow> number \<Rightarrow> bool" where
  "js_ge a b = js_le b a"

text \<open>The \<^verbatim>\<open>length\<close> property of a string, as a number.\<close>

definition length_of :: "jsstring \<Rightarrow> number" where
  "length_of s = Finite (of_nat (length s))"

text \<open>
  \<^verbatim>\<open>String.prototype.trim\<close> removes leading and trailing white space and line
  terminators (ECMAScript \<^verbatim>\<open>WhiteSpace\<close> and \<^verbatim>\<open>LineTerminator\<close>).
\<close>

definition isWhiteSpace :: "16 word \<Rightarrow> bool" where
  "isWhiteSpace c \<longleftrightarrow>
     c = 0x0009 \<or> c = 0x000B \<or> c = 0x000C \<or> c = 0x0020 \<or> c = 0x00A0 \<or> c = 0xFEFF \<or>
     c = 0x1680 \<or> (0x2000 \<le> c \<and> c \<le> 0x200A) \<or> c = 0x202F \<or> c = 0x205F \<or> c = 0x3000"

definition isLineTerminator :: "16 word \<Rightarrow> bool" where
  "isLineTerminator c \<longleftrightarrow> c = 0x000A \<or> c = 0x000D \<or> c = 0x2028 \<or> c = 0x2029"

definition trimmable :: "16 word \<Rightarrow> bool" where
  "trimmable c \<longleftrightarrow> isWhiteSpace c \<or> isLineTerminator c"

definition trim :: "jsstring \<Rightarrow> jsstring" where
  "trim s = rev (dropWhile trimmable (rev (dropWhile trimmable s)))"

text \<open>A value of type \<^verbatim>\<open>string | number\<close>.\<close>

datatype jsvalue = Str jsstring | Num number

text \<open>
  \<^verbatim>\<open>value.toString()\<close>: the identity on a string. \<^verbatim>\<open>Number.prototype.toString\<close> is
  a built-in whose digits the program never inspects; it is the parameter \<open>numToString\<close>.
\<close>

fun toString :: "(number \<Rightarrow> jsstring) \<Rightarrow> jsvalue \<Rightarrow> jsstring" where
  "toString numToString (Str s) = s"
| "toString numToString (Num n) = numToString n"

section \<open>Validation\<close>

text \<open>
  \<^verbatim>\<open>interface Validatable\<close>: an optional property that is absent is \<open>None\<close>.
\<close>

record Validatable =
  value' :: jsvalue
  required :: "bool option"
  minLength :: "number option"
  maxLength :: "number option"
  min' :: "number option"
  max' :: "number option"

text \<open>
  \<^verbatim>\<open>function validate(validatableObj)\<close>: five guarded updates of \<^verbatim>\<open>isValid\<close>, in the
  order of the source. \<^verbatim>\<open>x != null\<close> holds exactly when the property is present;
  \<^verbatim>\<open>typeof value === "string"\<close> is the constructor \<open>Str\<close>. The function has no loop and
  calls nothing that throws on a value of its parameter type, so it is a total function
  to \<open>bool\<close>. (The \<^verbatim>\<open>console.log\<close> call only prints.)
\<close>

definition validate :: "(number \<Rightarrow> jsstring) \<Rightarrow> Validatable \<Rightarrow> bool" where
  "validate numToString validatableObj =
    (let isValid = True;
         isValid =
           (if required validatableObj = Some True
            then isValid \<and> length (trim (toString numToString (value' validatableObj))) \<noteq> 0
            else isValid);
         isValid =
           (case (minLength validatableObj, value' validatableObj) of
              (Some m, Str s) \<Rightarrow> isValid \<and> js_ge (length_of s) m
            | _ \<Rightarrow> isValid);
         isValid =
           (case (maxLength validatableObj, value' validatableObj) of
              (Some m, Str s) \<Rightarrow> isValid \<and> js_le (length_of s) m
            | _ \<Rightarrow> isValid);
         isValid =
           (case (min' validatableObj, value' validatableObj) of
              (Some m, Num n) \<Rightarrow> isValid \<and> js_gt n m
            | _ \<Rightarrow> isValid);
         isValid =
           (case (max' validatableObj, value' validatableObj) of
              (Some m, Num n) \<Rightarrow> isValid \<and> js_lt n m
            | _ \<Rightarrow> isValid)
     in isValid)"

text \<open>
  The three constraint objects built by \<^verbatim>\<open>ProjectInput.gatherUserInput\<close> from the
  entered title, description and people count (\<^verbatim>\<open>+enteredPeople\<close> is a number).
\<close>

definition titleConf :: "jsstring \<Rightarrow> Validatable" where
  "titleConf enteredTitle =
     \<lparr>value' = Str enteredTitle, required = Some True, minLength = None, maxLength = None,
      min' = None, max' = None\<rparr>"

definition descriptionConf :: "jsstring \<Rightarrow> Validatable" where
  "descriptionConf enteredDesc =
     \<lparr>value' = Str enteredDesc, required = Some True, minLength = Some (Finite 5),
      maxLength = None, min' = None, max' = None\<rparr>"

definition peopleConf :: "number \<Rightarrow> Validatable" where
  "peopleConf enteredPeople =
     \<lparr>value' = Num enteredPeople, required = Some True, minLength = None, maxLength = None,
      min' = Some (Finite 1), max' = Some (Finite 10)\<rparr>"

section \<open>Projects and the heap\<close>

type_synonym addr = nat

text \<open>\<^verbatim>\<open>enum ProjectStatus\<close> and \<^verbatim>\<open>class Project\<close>.\<close>

datatype ProjectStatus = Active | Finished

record Project =
  id' :: jsstring
  title :: jsstring
  description :: jsstring
  people :: number
  status :: ProjectStatus

text \<open>The type \<^verbatim>\<open>"active" | "finished"\<close> of \<^verbatim>\<open>ProjectList.projectType\<close>.\<close>

datatype projectType = active | finished

text \<open>
  The fields of a \<^verbatim>\<open>ProjectList\<close> that are not DOM nodes; \<^verbatim>\<open>assignedProjects\<close> is a
  reference to an array.
\<close>

record ProjectList =
  projectType :: projectType
  assignedProjects :: addr

text \<open>
  Objects and arrays are shared by reference: \<^verbatim>\<open>moveProject\<close> writes to a \<^verbatim>\<open>Project\<close>
  that arrays handed to listeners also refer to. The heap maps an address to the object
  stored there, with one table per class: \<^verbatim>\<open>Project\<close> objects, \<^verbatim>\<open>Project[]\<close> arrays
  (lists of addresses of \<^verbatim>\<open>Project\<close> objects) and \<^verbatim>\<open>ProjectList\<close> components. The
  addresses below \<open>next_addr\<close> are the allocated ones; JavaScript has no dangling
  references, so a lookup is total.
\<close>

record heap =
  objects :: "addr \<Rightarrow> Project"
  arrays :: "addr \<Rightarrow> addr list"
  components :: "addr \<Rightarrow> ProjectList"
  next_addr :: addr

definition empty_heap :: heap where
  "empty_heap =
     \<lparr>objects = (\<lambda>_. \<lparr>id' = [], title = [], description = [], people = NaN, status = Active\<rparr>),
      arrays = (\<lambda>_. []),
      components = (\<lambda>_. \<lparr>projectType = active, assignedProjects = 0\<rparr>),
      next_addr = 0\<rparr>"

text \<open>An array literal or any other expression that creates an array with elements \<open>xs\<close>.\<close>

definition new_array :: "addr list \<Rightarrow> heap \<Rightarrow> addr \<times> heap" where
  "new_array xs h =
     (next_addr h, h\<lparr>arrays := (arrays h)(next_addr h := xs), next_addr := Suc (next_addr h)\<rparr>)"

text \<open>\<^verbatim>\<open>new Project(id, title, description, people, status)\<close>.\<close>

definition new_Project ::
  "jsstring \<Rightarrow> jsstring \<Rightarrow> jsstring \<Rightarrow> number \<Rightarrow> ProjectStatus \<Rightarrow> heap \<Rightarrow> addr \<times> heap" where
  "new_Project i t d p s h =
     (next_addr h,
      h\<lparr>objects := (objects h)
           (next_addr h := \<lparr>id' = i, title = t, description = d, people = p, status = s\<rparr>),
        next_addr := Suc (next_addr h)\<rparr>)"

text \<open>\<^verbatim>\<open>a.push(x)\<close>, \<^verbatim>\<open>a.slice()\<close>, \<^verbatim>\<open>a.find(pred)\<close> and \<^verbatim>\<open>a.filter(pred)\<close> on an array
  of projects at address \<open>a\<close>. \<^verbatim>\<open>slice\<close> and \<^verbatim>\<open>filter\<close> create a new array whose elements
  are the same objects.\<close>

definition push :: "addr \<Rightarrow> addr \<Rightarrow> heap \<Rightarrow> heap" where
  "push a x h = h\<lparr>arrays := (arrays h)(a := arrays h a @ [x])\<rparr>"

definition slice :: "addr \<Rightarrow> heap \<Rightarrow> addr \<times> heap" where
  "slice a h = new_array (arrays h a) h"

definition find_project :: "(Project \<Rightarrow> bool) \<Rightarrow> addr \<Rightarrow> heap \<Rightarrow> addr option" where
  "find_project pred a h = List.find (\<lambda>r. pred (objects h r)) (arrays h a)"

definition filter_projects :: "(Project \<Rightarrow> bool) \<Rightarrow> addr \<Rightarrow> heap \<Rightarrow> addr \<times> heap" where
  "filter_projects pred a h = new_array (filter (\<lambda>r. pred (objects h r)) (arrays h a)) h"

section \<open>The project store\<close>

text \<open>
  \<^verbatim>\<open>type Listener<T> = (items: T[]) => void\<close>: a listener receives a reference to an array
  and acts on the heap. A listener is modelled by its effect when it returns normally.
\<close>

type_synonym Listener = "addr \<Rightarrow> heap \<Rightarrow> heap"

text \<open>
  \<^verbatim>\<open>class ProjectState extends State<Project>\<close>. The field \<^verbatim>\<open>projects\<close> holds a reference
  to the array of projects and is never reassigned.
\<close>

record ProjectState =
  listeners :: "Listener list"
  projects :: addr

text \<open>The constructor (reached through \<^verbatim>\<open>getInstance\<close>): both arrays start empty.\<close>

definition new_ProjectState :: "heap \<Rightarrow> ProjectState \<times> heap" where
  "new_ProjectState h =
     (let (a, h1) = new_array [] h in (\<lparr>listeners = [], projects = a\<rparr>, h1))"

definition addListener :: "Listener \<Rightarrow> ProjectState \<Rightarrow> ProjectState" where
  "addListener listener st = st\<lparr>listeners := listeners st @ [listener]\<rparr>"

text \<open>
  A record of one listener call, kept to state who was called and in which order: the
  listener's position in the registration order, the array passed, and the elements of
  that array when it was passed.
\<close>

type_synonym call = "nat \<times> addr \<times> addr list"

text \<open>
  The loop of \<^verbatim>\<open>updateListeners\<close> over the listeners from position \<open>i\<close> on: every
  iteration evaluates \<^verbatim>\<open>this.projects.slice()\<close> and calls the listener with the result.
\<close>

fun notify :: "nat \<Rightarrow> Listener list \<Rightarrow> addr \<Rightarrow> heap \<Rightarrow> heap \<times> call list" where
  "notify i [] p h = (h, [])"
| "notify i (listener # rest) p h =
     (let (items, h1) = slice p h;
          h2 = listener items h1;
          (h3, calls) = notify (Suc i) rest p h2
      in (h3, (i, items, arrays h1 items) # calls))"

definition updateListeners :: "ProjectState \<Rightarrow> heap \<Rightarrow> heap \<times> call list" where
  "updateListeners st h = notify 0 (listeners st) (projects st) h"

text \<open>
  \<^verbatim>\<open>addProject\<close>. The value returned by \<^verbatim>\<open>Math.random()\<close> is the input \<open>random\<close>.
\<close>

definition addProject ::
  "(number \<Rightarrow> jsstring) \<Rightarrow> number \<Rightarrow> jsstring \<Rightarrow> jsstring \<Rightarrow> number \<Rightarrow> ProjectState \<Rightarrow> heap
     \<Rightarrow> heap \<times> call list" where
  "addProject numToString random title' desc people' st h =
     (let (newProject, h1) = new_Project (numToString random) title' desc people' Active h;
          h2 = push (projects st) newProject h1
      in updateListeners st h2)"

text \<open>
  \<^verbatim>\<open>moveProject\<close>: the found object is truthy, so the condition is that a project was
  found and its status differs.
\<close>

definition moveProject :: "jsstring \<Rightarrow> ProjectStatus \<Rightarrow> ProjectState \<Rightarrow> heap \<Rightarrow> heap \<times> call list" where
  "moveProject projectId newStatus st h =
     (case find_project (\<lambda>prj. id' prj = projectId) (projects st) h of
        Some prj \<Rightarrow>
          if status (objects h prj) \<noteq> newStatus
          then updateListeners st
                 (h\<lparr>objects := (objects h)(prj := (objects h prj)\<lparr>status := newStatus\<rparr>)\<rparr>)
          else (h, [])
      | None \<Rightarrow> (h, []))"

section \<open>The list components\<close>

text \<open>
  The listener that \<^verbatim>\<open>ProjectList.configure\<close> registers, for the component at address
  \<open>this\<close>: it filters the array it receives by the component's own category and assigns
  the result to \<^verbatim>\<open>assignedProjects\<close>. (\<^verbatim>\<open>renderProjects\<close> then rebuilds DOM nodes from
  \<^verbatim>\<open>assignedProjects\<close>; the DOM is not part of the heap.)
\<close>

definition ProjectList_listener :: "addr \<Rightarrow> Listener" where
  "ProjectList_listener this projects' h =
     (let (relevantProjects, h1) =
            filter_projects
              (\<lambda>prj. if projectType (components h this) = active
                      then status prj = Active
                      else status prj = Finished)
              projects' h
      in h1\<lparr>components :=
              (components h1)(this := (components h1 this)\<lparr>assignedProjects := relevantProjects\<rparr>)\<rparr>)"

text \<open>
  \<^verbatim>\<open>new ProjectList(projectType)\<close>: the field initialiser and the constructor body each
  assign a new empty array, then \<^verbatim>\<open>configure\<close> registers the listener with the store.
\<close>

definition new_ProjectList :: "projectType \<Rightarrow> ProjectState \<Rightarrow> heap \<Rightarrow> addr \<times> ProjectState \<times> heap" where
  "new_ProjectList ptype st h =
     (let this = next_addr h;
          h0 = h\<lparr>next_addr := Suc (next_addr h)\<rparr>;
          (a1, h1) = new_array [] h0;
          h2 = h1\<lparr>components := (components h1)(this := \<lparr>projectType = ptype, assignedProjects = a1\<rparr>)\<rparr>;
          (a2, h3) = new_array [] h2;
          h4 = h3\<lparr>components := (components h3)(this := (components h3 this)\<lparr>assignedProjects := a2\<rparr>)\<rparr>
      in (this, addListener (ProjectList_listener this) st, h4))"

text \<open>
  The top level of \<^verbatim>\<open>app.ts\<close>: the store, then the \<^verbatim>\<open>"active"\<close> and the \<^verbatim>\<open>"finished"\<close>
  list. (The input form \<^verbatim>\<open>new ProjectInput()\<close> only creates DOM nodes.) The result is the
  store, the two components and the heap.
\<close>

definition startup :: "ProjectState \<times> addr \<times> addr \<times> heap" where
  "startup =
     (let (state0, h0) = new_ProjectState empty_heap;
          (activeProjectList, state1, h1) = new_ProjectList active state0 h0;
          (finishedProjectList, state2, h2) = new_ProjectList finished state1 h1
      in (state2, activeProjectList, finishedProjectList, h2))"

section \<open>Reading the store\<close>

text \<open>The projects an array refers to, in order, and the store's sequence of projects.\<close>

definition items_of :: "heap \<Rightarrow> addr \<Rightarrow> Project list" where
  "items_of h a = map (objects h) (arrays h a)"

definition contents :: "ProjectState \<Rightarrow> heap \<Rightarrow> Project list" where
  "contents st h = items_of h (projects st)"

text \<open>
  The store's array and the objects it refers to are allocated, and no object occurs
  twice in it.
\<close>

definition store_ok :: "ProjectState \<Rightarrow> heap \<Rightarrow> bool" where
  "store_ok st h \<longleftrightarrow>
     projects st < next_addr h
     \<and> list_all (\<lambda>r. r < next_addr h) (arrays h (projects st))
     \<and> distinct (arrays h (projects st))"

text \<open>
  A listener that writes to no project and to no array that existed when it was called
  other than the array it received; it may allocate.
\<close>

definition snapshot_local :: "Listener \<Rightarrow> bool" where
  "snapshot_local l \<longleftrightarrow>
     (\<forall>items h. next_addr h \<le> next_addr (l items h)
        \<and> (\<forall>a<next_addr h. objects (l items h) a = objects h a
              \<and> (a \<noteq> items \<longrightarrow> arrays (l items h) a = arrays h a)))"



text \<open>\<^verbatim>\<open>items.length = 0\<close>: the listener empties the array it received.\<close>

definition clear_items :: Listener where
  "clear_items items h = h\<lparr>arrays := (arrays h)(items := [])\<rparr>"

section \<open>An example store\<close>

text \<open>
  A store that holds one project, as left by
  \<^verbatim>\<open>addProject("A", "desc!!", 3)\<close> when \<^verbatim>\<open>Math.random()\<close> returned \<open>0.5\<close>, with one
  registered listener.
\<close>

definition example_project :: Project where
  "example_project =
     \<lparr>id' = [0x30, 0x2E, 0x35], title = [0x41], description = [0x64, 0x65, 0x73, 0x63, 0x21, 0x21],
      people = Finite 3, status = Active\<rparr>"

definition example_heap :: heap where
  "example_heap =
     empty_heap\<lparr>arrays := (arrays empty_heap)(0 := [1]),
                objects := (objects empty_heap)(1 := example_project),
                next_addr := 2\<rparr>"

definition example_state :: ProjectState where
  "example_state = \<lparr>listeners = [clear_items], projects = 0\<rparr>"

section \<open>Properties of validation\<close>

lemma js_lt_irrefl: "\<not> js_lt m m"
  by (cases m) simp_all

text \<open>The result of \<^verbatim>\<open>validate\<close> as the conjunction of the constraints that apply.\<close>

lemma validate_iff:
  "validate ts v \<longleftrightarrow>
     (required v = Some True \<longrightarrow> trim (toString ts (value' v)) \<noteq> [])
     \<and> (\<forall>s m. value' v = Str s \<longrightarrow> minLength v = Some m \<longrightarrow> js_ge (length_of s) m)
     \<and> (\<forall>s m. value' v = Str s \<longrightarrow> maxLength v = Some m \<longrightarrow> js_le (length_of s) m)
     \<and> (\<forall>n m. value' v = Num n \<longrightarrow> min' v = Some m \<longrightarrow> js_gt n m)
     \<and> (\<forall>n m. value' v = Num n \<longrightarrow> max' v = Some m \<longrightarrow> js_lt n m)"
  by (auto simp: validate_def Let_def split: option.splits jsvalue.splits)

text \<open>
  Claim C4. For a numeric value, \<^verbatim>\<open>min\<close> and \<^verbatim>\<open>max\<close> are strict bounds: a valid object
  with \<^verbatim>\<open>min\<close> present has \<^verbatim>\<open>value > min\<close>, and with \<^verbatim>\<open>max\<close> present has
  \<^verbatim>\<open>value < max\<close>; on finite numbers these are the strict orders, and no number is above or
  below itself. \<^verbatim>\<open>validate({value:5, min:5})\<close> is false, \<^verbatim>\<open>validate({value:5.0001, min:5})\<close>
  is true (the double written \<^verbatim>\<open>5.0001\<close> is \<open>1407403031050951 / 2^48\<close>), and the people
  constraints of the input form reject 1 and 10.
\<close>

theorem validate_numeric_bounds_strict:
  "(value' v = Num n \<longrightarrow> min' v = Some lo \<longrightarrow> validate ts v \<longrightarrow> js_gt n lo)
   \<and> (value' v = Num n \<longrightarrow> max' v = Some hi \<longrightarrow> validate ts v \<longrightarrow> js_lt n hi)
   \<and> js_gt (Finite x) (Finite y) = (y < x)
   \<and> js_lt (Finite x) (Finite y) = (x < y)
   \<and> \<not> js_gt n n \<and> \<not> js_lt n n
   \<and> validate ts \<lparr>value' = Num (Finite 5), required = None, minLength = None,
         maxLength = None, min' = Some (Finite 5), max' = None\<rparr> = False
   \<and> validate ts \<lparr>value' = Num (Finite (1407403031050951 / 281474976710656)), required = None,
         minLength = None, maxLength = None, min' = Some (Finite 5), max' = None\<rparr> = True
   \<and> validate ts (peopleConf (Finite 1)) = False
   \<and> validate ts (peopleConf (Finite 10)) = False"
  by (simp add: validate_iff peopleConf_def js_gt_def js_lt_irrefl)

text \<open>Witness for C4: 7 lies strictly between 5 and 10.\<close>

theorem validate_numeric_bounds_strict_witness:
  "validate (\<lambda>_. [0x37]) \<lparr>value' = Num (Finite 7), required = None, minLength = None,
         maxLength = None, min' = Some (Finite 5), max' = Some (Finite 10)\<rparr>
   \<and> js_gt (Finite 7) (Finite 5) \<and> js_lt (Finite 7) (Finite 10)"
  using validate_numeric_bounds_strict [of "\<lparr>value' = Num (Finite 7), required = None, minLength = None,
         maxLength = None, min' = Some (Finite 5), max' = Some (Finite 10)\<rparr>" "Finite 7" "Finite 5" "\<lambda>_. [0x37]" "Finite 10"]
  by (simp add: validate_def js_gt_def)

text \<open>
  Claim C5. \<^verbatim>\<open>validate\<close> is a total function to the booleans. With \<^verbatim>\<open>required\<close> true
  a valid object has a value whose string form is non-empty after trimming; in particular
  \<^verbatim>\<open>validate({value:"", required:true})\<close> is false. Setting \<^verbatim>\<open>required\<close> adds exactly the
  emptiness check to the other constraints, and with \<^verbatim>\<open>required\<close> absent or false the
  result is that of the other constraints alone (it does not depend on the string form of
  the value): the empty string is then valid.
\<close>

theorem validate_required:
  "(validate ts v = True \<or> validate ts v = False)
   \<and> (required v = Some True \<longrightarrow> validate ts v \<longrightarrow> trim (toString ts (value' v)) \<noteq> [])
   \<and> validate ts \<lparr>value' = Str [], required = Some True, minLength = None,
         maxLength = None, min' = None, max' = None\<rparr> = False
   \<and> validate ts (v\<lparr>required := Some True\<rparr>) =
         (trim (toString ts (value' v)) \<noteq> [] \<and> validate ts (v\<lparr>required := None\<rparr>))
   \<and> (required v \<noteq> Some True \<longrightarrow> validate ts v = validate ts' (v\<lparr>required := None\<rparr>))
   \<and> validate ts \<lparr>value' = Str [], required = None, minLength = None,
         maxLength = None, min' = None, max' = None\<rparr> = True
   \<and> validate ts \<lparr>value' = Str [], required = Some False, minLength = None,
         maxLength = None, min' = None, max' = None\<rparr> = True"
proof -
  have total: "validate ts v = True \<or> validate ts v = False"
    by blast
  have req: "required v = Some True \<longrightarrow> validate ts v \<longrightarrow> trim (toString ts (value' v)) \<noteq> []"
    by (simp add: validate_iff)
  have addreq: "validate ts (v\<lparr>required := Some True\<rparr>) =
         (trim (toString ts (value' v)) \<noteq> [] \<and> validate ts (v\<lparr>required := None\<rparr>))"
    by (simp add: validate_iff)
  have notreq: "required v \<noteq> Some True \<longrightarrow> validate ts v = validate ts' (v\<lparr>required := None\<rparr>)"
    by (simp add: validate_iff)
  have examples: "validate ts \<lparr>value' = Str [], required = Some True, minLength = None,
         maxLength = None, min' = None, max' = None\<rparr> = False"
    "validate ts \<lparr>value' = Str [], required = None, minLength = None,
         maxLength = None, min' = None, max' = None\<rparr> = True"
    "validate ts \<lparr>value' = Str [], required = Some False, minLength = None,
         maxLength = None, min' = None, max' = None\<rparr> = True"
    by (simp_all add: validate_iff trim_def)
  from total req addreq notreq examples show ?thesis
    by blast
qed

text \<open>
  Witness for C5: \<^verbatim>\<open>" A "\<close> is valid when required; a single space is valid when
  \<^verbatim>\<open>required\<close> is false and invalid when it is true.
\<close>

theorem validate_required_witness:
  "validate (\<lambda>_. []) \<lparr>value' = Str [0x20, 0x41, 0x20], required = Some True, minLength = None,
         maxLength = None, min' = None, max' = None\<rparr>
   \<and> trim [0x20, 0x41, 0x20] = [0x41]
   \<and> validate (\<lambda>_. []) \<lparr>value' = Str [0x20], required = Some False, minLength = None,
         maxLength = None, min' = None, max' = None\<rparr>
   \<and> \<not> validate (\<lambda>_. []) \<lparr>value' = Str [0x20], required = Some True, minLength = None,
         maxLength = None, min' = None, max' = None\<rparr>"
  using validate_required [of "\<lambda>_. []" "\<lparr>value' = Str [0x20, 0x41, 0x20], required = Some True, minLength = None,
         maxLength = None, min' = None, max' = None\<rparr>" "\<lambda>_. []"]
    validate_required [of "\<lambda>_. []" "\<lparr>value' = Str [0x20], required = Some False, minLength = None,
         maxLength = None, min' = None, max' = None\<rparr>" "\<lambda>_. []"]
  by (simp add: validate_def trim_def trimmable_def isWhiteSpace_def isLineTerminator_def)

text \<open>
  Claim C6. For a string value, \<^verbatim>\<open>minLength\<close> and \<^verbatim>\<open>maxLength\<close> are inclusive bounds on
  the length. A valid object has \<^verbatim>\<open>length >= minLength\<close> and \<^verbatim>\<open>length <= maxLength\<close> for
  the bounds that are present, and conversely a string value is valid exactly when the
  \<^verbatim>\<open>required\<close> check (if asked for) and these two comparisons hold: with bounds \<open>k\<close> and
  \<open>m\<close> and nothing required, \<^verbatim>\<open>validate\<close> returns true exactly when
  \<open>k \<le> length \<le> m\<close>, so a length equal to a bound is accepted.
  \<^verbatim>\<open>validate({value:"ab", minLength:5})\<close> is false. For a numeric value the result does not
  depend on \<^verbatim>\<open>minLength\<close> and \<^verbatim>\<open>maxLength\<close> at all.
\<close>

theorem validate_length_bounds_inclusive:
  "(value' v = Str s \<longrightarrow> minLength v = Some lo \<longrightarrow> validate ts v \<longrightarrow> js_ge (length_of s) lo)
   \<and> (value' v = Str s \<longrightarrow> maxLength v = Some hi \<longrightarrow> validate ts v \<longrightarrow> js_le (length_of s) hi)
   \<and> (value' v = Str s \<longrightarrow>
        validate ts v =
          ((required v = Some True \<longrightarrow> trim s \<noteq> [])
           \<and> (\<forall>l. minLength v = Some l \<longrightarrow> js_ge (length_of s) l)
           \<and> (\<forall>u. maxLength v = Some u \<longrightarrow> js_le (length_of s) u)))
   \<and> js_ge (length_of s) (Finite (of_nat k)) = (k \<le> length s)
   \<and> js_le (length_of s) (Finite (of_nat k)) = (length s \<le> k)
   \<and> validate ts \<lparr>value' = Str s, required = None, minLength = Some (Finite (of_nat k)),
         maxLength = Some (Finite (of_nat m)), min' = x, max' = y\<rparr>
       = (k \<le> length s \<and> length s \<le> m)
   \<and> validate ts \<lparr>value' = Str s, required = None, minLength = Some (length_of s),
         maxLength = Some (length_of s), min' = x, max' = y\<rparr> = True
   \<and> validate ts \<lparr>value' = Str [0x61, 0x62], required = None, minLength = Some (Finite 5),
         maxLength = None, min' = None, max' = None\<rparr> = False
   \<and> (value' v = Num n \<longrightarrow> validate ts v = validate ts (v\<lparr>minLength := a, maxLength := b\<rparr>))"
proof -
  have ge: "js_ge (length_of s) (Finite (of_nat k)) = (k \<le> length s)"
    and le: "js_le (length_of s) (Finite (of_nat k)) = (length s \<le> k)" for k
    by (auto simp add: js_ge_def length_of_def)
  have valid: "value' v = Str s \<longrightarrow> minLength v = Some lo \<longrightarrow> validate ts v \<longrightarrow> js_ge (length_of s) lo"
    "value' v = Str s \<longrightarrow> maxLength v = Some hi \<longrightarrow> validate ts v \<longrightarrow> js_le (length_of s) hi"
    by (simp_all add: validate_iff)
  have exact: "value' v = Str s \<longrightarrow>
        validate ts v =
          ((required v = Some True \<longrightarrow> trim s \<noteq> [])
           \<and> (\<forall>l. minLength v = Some l \<longrightarrow> js_ge (length_of s) l)
           \<and> (\<forall>u. maxLength v = Some u \<longrightarrow> js_le (length_of s) u))"
    by (auto simp add: validate_iff)
  have bounds: "validate ts \<lparr>value' = Str s, required = None, minLength = Some (Finite (of_nat k)),
         maxLength = Some (Finite (of_nat m)), min' = x, max' = y\<rparr>
       = (k \<le> length s \<and> length s \<le> m)"
    by (simp add: validate_iff ge le)
  have at_bound: "validate ts \<lparr>value' = Str s, required = None, minLength = Some (length_of s),
         maxLength = Some (length_of s), min' = x, max' = y\<rparr> = True"
    by (simp add: validate_iff js_ge_def length_of_def)
  have short: "validate ts \<lparr>value' = Str [0x61, 0x62], required = None, minLength = Some (Finite 5),
         maxLength = None, min' = None, max' = None\<rparr> = False"
    by (simp add: validate_iff js_ge_def length_of_def)
  have num: "value' v = Num n \<longrightarrow> validate ts v = validate ts (v\<lparr>minLength := a, maxLength := b\<rparr>)"
    by (simp add: validate_iff)
  from valid exact ge le bounds at_bound short num show ?thesis
    by blast
qed

text \<open>
  Claim C10. When no constraint applies (\<^verbatim>\<open>required\<close> absent or false, each length bound
  absent or the value not a string, each numeric bound absent or the value not a number),
  \<^verbatim>\<open>validate\<close> returns true; in particular \<^verbatim>\<open>validate({value: x})\<close> is true for every \<open>x\<close>.
\<close>

theorem validate_vacuous:
  "(required v \<noteq> Some True \<longrightarrow>
    (minLength v = None \<or> (\<forall>s. value' v \<noteq> Str s)) \<longrightarrow>
    (maxLength v = None \<or> (\<forall>s. value' v \<noteq> Str s)) \<longrightarrow>
    (min' v = None \<or> (\<forall>n. value' v \<noteq> Num n)) \<longrightarrow>
    (max' v = None \<or> (\<forall>n. value' v \<noteq> Num n)) \<longrightarrow> validate ts v)
   \<and> validate ts \<lparr>value' = x, required = None, minLength = None,
         maxLength = None, min' = None, max' = None\<rparr>"
  by (auto simp add: validate_iff)


text \<open>
  Witness for C6: \<^verbatim>\<open>"ab"\<close> with both length bounds equal to 2 is valid; the number 3 is
  valid whatever the length bounds.
\<close>

theorem validate_length_bounds_inclusive_witness:
  "validate (\<lambda>_. []) \<lparr>value' = Str [0x61, 0x62], required = None, minLength = Some (Finite 2),
         maxLength = Some (Finite 2), min' = None, max' = None\<rparr>
   \<and> js_ge (length_of [0x61, 0x62]) (Finite 2) \<and> js_le (length_of [0x61, 0x62]) (Finite 2)
   \<and> validate (\<lambda>_. []) \<lparr>value' = Num (Finite 3), required = None, minLength = Some (Finite 5),
         maxLength = Some (Finite 0), min' = None, max' = None\<rparr>"
proof -
  define v where "v = \<lparr>value' = Str [0x61, 0x62], required = None, minLength = Some (Finite 2),
         maxLength = Some (Finite 2), min' = None, max' = None\<rparr>"
  define w where "w = \<lparr>value' = Num (Finite 3), required = None, minLength = Some (Finite 5),
         maxLength = Some (Finite 0), min' = None, max' = None\<rparr>"
  have len: "js_ge (length_of [0x61, 0x62]) (Finite 2)" "js_le (length_of [0x61, 0x62]) (Finite 2)"
    by (simp_all add: js_ge_def length_of_def)
  have v: "value' v = Str [0x61, 0x62]" "required v = None" "minLength v = Some (Finite 2)"
    "maxLength v = Some (Finite 2)"
    by (simp_all add: v_def)
  from validate_length_bounds_inclusive [where v = v and s = "[0x61, 0x62]" and ts = "\<lambda>_. []"] v len
  have a: "validate (\<lambda>_. []) v"
    by simp
  have w: "value' w = Num (Finite 3)" "w\<lparr>minLength := None, maxLength := None\<rparr>
      = \<lparr>value' = Num (Finite 3), required = None, minLength = None, maxLength = None,
         min' = None, max' = None\<rparr>"
    by (simp_all add: w_def)
  from validate_length_bounds_inclusive [where v = w and n = "Finite 3" and ts = "\<lambda>_. []"
      and a = None and b = None] w
  have "validate (\<lambda>_. []) w = validate (\<lambda>_. [])
      \<lparr>value' = Num (Finite 3), required = None, minLength = None, maxLength = None,
         min' = None, max' = None\<rparr>"
    by simp
  then have b: "validate (\<lambda>_. []) w"
    by (simp add: validate_iff)
  from a b len show ?thesis
    by (simp add: v_def w_def)
qed

text \<open>
  Witness for C10: \<^verbatim>\<open>NaN\<close> with length bounds only, and the empty string with numeric
  bounds only.
\<close>

theorem validate_vacuous_witness:
  "validate (\<lambda>_. []) \<lparr>value' = Num NaN, required = Some False, minLength = Some (Finite 5),
         maxLength = Some (Finite 0), min' = None, max' = None\<rparr>
   \<and> validate (\<lambda>_. []) \<lparr>value' = Str [], required = None, minLength = None,
         maxLength = None, min' = Some (Finite 1), max' = Some (Finite 0)\<rparr>"
  using validate_vacuous [of "\<lparr>value' = Num NaN, required = Some False, minLength = Some (Finite 5),
         maxLength = Some (Finite 0), min' = None, max' = None\<rparr>" "\<lambda>_. []"]
   validate_vacuous [of "\<lparr>value' = Str [], required = None, minLength = None,
         maxLength = None, min' = Some (Finite 1), max' = Some (Finite 0)\<rparr>" "\<lambda>_. []"]
  by simp

section \<open>Properties of the store\<close>

subsection \<open>The notification loop\<close>

lemma slice_eq:
  "slice p h =
     (next_addr h,
      h\<lparr>arrays := (arrays h)(next_addr h := arrays h p), next_addr := Suc (next_addr h)\<rparr>)"
  by (simp add: slice_def new_array_def)

lemma slice_fields:
  "fst (slice p h) = next_addr h"
  "next_addr (snd (slice p h)) = Suc (next_addr h)"
  "objects (snd (slice p h)) = objects h"
  "components (snd (slice p h)) = components h"
  "arrays (snd (slice p h)) (next_addr h) = arrays h p"
  "a \<noteq> next_addr h \<Longrightarrow> arrays (snd (slice p h)) a = arrays h a"
  by (simp_all add: slice_eq)

lemma notify_Cons:
  "notify i (l # ls) p h =
     (fst (notify (Suc i) ls p (l (next_addr h) (snd (slice p h)))),
      (i, next_addr h, arrays h p) # snd (notify (Suc i) ls p (l (next_addr h) (snd (slice p h)))))"
  by (simp add: slice_eq case_prod_beta Let_def)

text \<open>The positions logged are those of the listeners, in registration order.\<close>

lemma notify_indices: "map fst (snd (notify i ls p h)) = [i..<i + length ls]"
proof (induction ls arbitrary: i h)
  case Nil
  show ?case by simp
next
  case (Cons l ls)
  have "map fst (snd (notify i (l # ls) p h)) = i # [Suc i..<Suc i + length ls]"
    unfolding notify_Cons using Cons.IH by simp
  also have "\<dots> = [i..<i + length (l # ls)]"
    by (simp add: upt_rec)
  finally show ?case .
qed


text \<open>Listeners that keep to their own array leave every allocated project and array alone.\<close>

lemma notify_frame:
  assumes "\<forall>l\<in>set ls. snapshot_local l"
  shows "next_addr h \<le> next_addr (fst (notify i ls p h))
     \<and> (\<forall>a<next_addr h. objects (fst (notify i ls p h)) a = objects h a
           \<and> arrays (fst (notify i ls p h)) a = arrays h a)"
  using assms
proof (induction ls arbitrary: i h)
  case Nil
  show ?case by simp
next
  case (Cons l ls)
  define h1 where "h1 = snd (slice p h)"
  define h2 where "h2 = l (next_addr h) h1"
  define h3 where "h3 = fst (notify (Suc i) ls p h2)"
  have loc: "snapshot_local l" and rest: "\<forall>l\<in>set ls. snapshot_local l"
    using Cons.prems by simp_all
  have h1: "next_addr h1 = Suc (next_addr h)" "objects h1 = objects h"
    "\<And>a. a \<noteq> next_addr h \<Longrightarrow> arrays h1 a = arrays h a"
    by (simp_all add: h1_def slice_eq)
  have h2: "next_addr h1 \<le> next_addr h2"
    "\<And>a. a < next_addr h1 \<Longrightarrow> objects h2 a = objects h1 a"
    "\<And>a. a < next_addr h1 \<Longrightarrow> a \<noteq> next_addr h \<Longrightarrow> arrays h2 a = arrays h1 a"
    using loc unfolding snapshot_local_def h2_def by blast+
  have step: "fst (notify i (l # ls) p h) = h3"
    by (simp only: notify_Cons h3_def h2_def h1_def fst_conv)
  from Cons.IH [OF rest, where i = "Suc i" and h = h2]
  have ih: "next_addr h2 \<le> next_addr h3"
    "\<And>a. a < next_addr h2 \<Longrightarrow> objects h3 a = objects h2 a"
    "\<And>a. a < next_addr h2 \<Longrightarrow> arrays h3 a = arrays h2 a"
    unfolding h3_def by simp_all
  show ?case
    unfolding step
  proof (intro conjI allI impI)
    show "next_addr h \<le> next_addr h3"
      using ih(1) h2(1) h1(1) by linarith
  next
    fix a assume a: "a < next_addr h"
    then have b: "a < next_addr h1" "a < next_addr h2" "a \<noteq> next_addr h"
      using h1(1) h2(1) by simp_all
    show "objects h3 a = objects h a"
      using b ih(2) h2(2) h1(2) by simp
    show "arrays h3 a = arrays h a"
      using b ih(3) h2(3) h1(3) by simp
  qed
qed

text \<open>
  With such listeners every call receives a new array holding the elements of the store's
  array, and no two calls receive the same array.
\<close>

lemma notify_calls:
  assumes "\<forall>l\<in>set ls. snapshot_local l" and "p < next_addr h"
  shows "list_all (\<lambda>c. next_addr h \<le> fst (snd c) \<and> snd (snd c) = arrays h p) (snd (notify i ls p h))
         \<and> distinct (map (\<lambda>c. fst (snd c)) (snd (notify i ls p h)))"
  using assms
proof (induction ls arbitrary: i h)
  case Nil
  show ?case by simp
next
  case (Cons l ls)
  define h1 where "h1 = snd (slice p h)"
  define h2 where "h2 = l (next_addr h) h1"
  define cs where "cs = snd (notify (Suc i) ls p h2)"
  have loc: "snapshot_local l" and rest: "\<forall>l\<in>set ls. snapshot_local l"
    using Cons.prems by simp_all
  have pn: "p \<noteq> next_addr h"
    using Cons.prems(2) by simp
  have h1: "next_addr h1 = Suc (next_addr h)" "arrays h1 p = arrays h p"
    using pn by (simp_all add: h1_def slice_eq)
  have p1: "p < next_addr h1"
    using Cons.prems(2) h1(1) by simp
  have h2: "next_addr h1 \<le> next_addr h2" "arrays h2 p = arrays h1 p"
    using loc p1 pn unfolding snapshot_local_def h2_def by blast+
  have p2: "p < next_addr h2"
    using p1 h2(1) by linarith
  have step: "snd (notify i (l # ls) p h) = (i, next_addr h, arrays h p) # cs"
    by (simp only: notify_Cons cs_def h2_def h1_def snd_conv)
  from Cons.IH [OF rest p2, where i = "Suc i"]
  have ih: "list_all (\<lambda>c. next_addr h2 \<le> fst (snd c) \<and> snd (snd c) = arrays h2 p) cs"
    "distinct (map (\<lambda>c. fst (snd c)) cs)"
    unfolding cs_def by simp_all
  have ih': "\<And>c. c \<in> set cs \<Longrightarrow> next_addr h < fst (snd c) \<and> snd (snd c) = arrays h p"
    using ih(1) h1 h2 by (auto simp: list_all_iff)
  have notin: "next_addr h \<notin> (\<lambda>c. fst (snd c)) ` set cs"
    using ih' by fastforce
  have all: "list_all (\<lambda>c. next_addr h \<le> fst (snd c) \<and> snd (snd c) = arrays h p) cs"
    using ih' by (simp add: list_all_iff less_imp_le)
  show ?case
    unfolding step using all ih(2) notin by simp
qed




lemma store_ok_D:
  assumes "store_ok st h"
  shows "projects st < next_addr h"
    and "\<And>r. r \<in> set (arrays h (projects st)) \<Longrightarrow> r < next_addr h"
    and "distinct (arrays h (projects st))"
  using assms by (simp_all add: store_ok_def list_all_iff)

lemma store_ok_objects_upd: "store_ok st (h\<lparr>objects := f\<rparr>) = store_ok st h"
  by (simp add: store_ok_def)

text \<open>A new store is well formed, and registering a listener keeps it so.\<close>

lemma store_ok_new_ProjectState: "store_ok (fst (new_ProjectState h)) (snd (new_ProjectState h))"
  by (simp add: new_ProjectState_def new_array_def store_ok_def)

lemma store_ok_addListener: "store_ok (addListener l st) h = store_ok st h"
  by (simp add: addListener_def store_ok_def)

lemma updateListeners_frame:
  assumes ok: "store_ok st h" and loc: "\<forall>l\<in>set (listeners st). snapshot_local l"
  shows "arrays (fst (updateListeners st h)) (projects st) = arrays h (projects st)"
    and "contents st (fst (updateListeners st h)) = contents st h"
    and "store_ok st (fst (updateListeners st h))"
    and "next_addr h \<le> next_addr (fst (updateListeners st h))"
proof -
  define h' where "h' = fst (updateListeners st h)"
  have fr: "next_addr h \<le> next_addr h'"
    "\<And>a. a < next_addr h \<Longrightarrow> objects h' a = objects h a"
    "\<And>a. a < next_addr h \<Longrightarrow> arrays h' a = arrays h a"
    using notify_frame [OF loc, of h 0 "projects st"]
    by (simp_all add: h'_def updateListeners_def)
  show arr: "arrays (fst (updateListeners st h)) (projects st) = arrays h (projects st)"
    using fr(3) store_ok_D(1) [OF ok] by (simp add: h'_def)
  have "map (objects h') (arrays h (projects st)) = map (objects h) (arrays h (projects st))"
    using fr(2) store_ok_D(2) [OF ok] by simp
  then show "contents st (fst (updateListeners st h)) = contents st h"
    using arr by (simp add: contents_def items_of_def h'_def)
  show "store_ok st (fst (updateListeners st h))"
    using arr fr(1) store_ok_D [OF ok] unfolding store_ok_def list_all_iff h'_def
    by (metis less_le_trans)
  show "next_addr h \<le> next_addr (fst (updateListeners st h))"
    using fr(1) by (simp add: h'_def)
qed

lemma updateListeners_calls:
  assumes ok: "store_ok st h" and loc: "\<forall>l\<in>set (listeners st). snapshot_local l"
  shows "map fst (snd (updateListeners st h)) = [0..<length (listeners st)]"
    and "list_all (\<lambda>c. snd (snd c) = arrays h (projects st) \<and> fst (snd c) \<noteq> projects st
                   \<and> next_addr h \<le> fst (snd c)) (snd (updateListeners st h))"
    and "distinct (map (\<lambda>c. fst (snd c)) (snd (updateListeners st h)))"
proof -
  have p: "projects st < next_addr h"
    using ok by (rule store_ok_D)
  show "map fst (snd (updateListeners st h)) = [0..<length (listeners st)]"
    using notify_indices [of 0 "listeners st" "projects st" h] by (simp add: updateListeners_def)
  have calls: "list_all (\<lambda>c. next_addr h \<le> fst (snd c) \<and> snd (snd c) = arrays h (projects st))
                 (snd (updateListeners st h))"
    and own: "distinct (map (\<lambda>c. fst (snd c)) (snd (updateListeners st h)))"
    using notify_calls [OF loc p, of 0] by (simp_all add: updateListeners_def)
  show "list_all (\<lambda>c. snd (snd c) = arrays h (projects st) \<and> fst (snd c) \<noteq> projects st
                   \<and> next_addr h \<le> fst (snd c)) (snd (updateListeners st h))"
    using calls p by (auto simp: list_all_iff)
  show "distinct (map (\<lambda>c. fst (snd c)) (snd (updateListeners st h)))"
    by (rule own)
qed

subsection \<open>Particular listeners and the example store\<close>

lemma snapshot_local_clear_items: "snapshot_local clear_items"
  by (simp add: snapshot_local_def clear_items_def)


lemma ProjectList_listener_eq:
  "ProjectList_listener this items h =
     h\<lparr>arrays := (arrays h)
           (next_addr h :=
              filter (\<lambda>r. if projectType (components h this) = active
                           then status (objects h r) = Active
                           else status (objects h r) = Finished) (arrays h items)),
       next_addr := Suc (next_addr h),
       components := (components h)(this := (components h this)\<lparr>assignedProjects := next_addr h\<rparr>)\<rparr>"
  by (simp add: ProjectList_listener_def filter_projects_def new_array_def)

lemma snapshot_local_ProjectList_listener: "snapshot_local (ProjectList_listener this)"
  by (simp add: snapshot_local_def ProjectList_listener_eq)

lemma example_ok: "store_ok example_state example_heap"
  by (simp add: example_state_def store_ok_def example_heap_def empty_heap_def)

lemma example_local: "\<forall>l\<in>set (listeners example_state). snapshot_local l"
  by (simp add: example_state_def snapshot_local_clear_items)

lemma example_contents: "contents example_state example_heap = [example_project]"
  by (simp add: example_state_def contents_def items_of_def example_heap_def empty_heap_def)

subsection \<open>Notification\<close>




subsection \<open>Adding a project\<close>

lemma addProject_eq:
  "addProject ts random t d p st h =
     updateListeners st
       (h\<lparr>objects := (objects h)
             (next_addr h := \<lparr>id' = ts random, title = t, description = d, people = p, status = Active\<rparr>),
          next_addr := Suc (next_addr h),
          arrays := (arrays h)(projects st := arrays h (projects st) @ [next_addr h])\<rparr>)"
  by (simp add: addProject_def new_Project_def push_def)

lemma map_objects_upd:
  assumes "\<And>r. r \<in> set rs \<Longrightarrow> r \<noteq> a"
  shows "map ((objects h)(a := x)) rs = map (objects h) rs"
  using assms by (induction rs) auto

text \<open>The heap that \<^verbatim>\<open>addProject\<close> hands to \<^verbatim>\<open>updateListeners\<close>.\<close>

lemma addProject_step:
  fixes ts :: "number \<Rightarrow> jsstring" and random t d p st h
  assumes ok: "store_ok st h"
  defines "h2 \<equiv> h\<lparr>objects := (objects h)
             (next_addr h := \<lparr>id' = ts random, title = t, description = d, people = p, status = Active\<rparr>),
          next_addr := Suc (next_addr h),
          arrays := (arrays h)(projects st := arrays h (projects st) @ [next_addr h])\<rparr>"
  shows "addProject ts random t d p st h = updateListeners st h2"
    and "contents st h2 = contents st h
           @ [\<lparr>id' = ts random, title = t, description = d, people = p, status = Active\<rparr>]"
    and "store_ok st h2"
    and "components h2 = components h"
    and "arrays h2 (projects st) = arrays h (projects st) @ [next_addr h]"
    and "\<forall>a<next_addr h. objects h2 a = objects h a"
proof -
  have old: "\<And>r. r \<in> set (arrays h (projects st)) \<Longrightarrow> r \<noteq> next_addr h"
    using store_ok_D(2) [OF ok] by blast
  show "addProject ts random t d p st h = updateListeners st h2"
    by (simp add: addProject_eq h2_def)
  show "contents st h2 = contents st h
           @ [\<lparr>id' = ts random, title = t, description = d, people = p, status = Active\<rparr>]"
    using map_objects_upd [of "arrays h (projects st)" "next_addr h" h] old
    by (simp add: contents_def items_of_def h2_def)
  show "store_ok st h2"
    using store_ok_D [OF ok] old
    by (auto simp: store_ok_def list_all_iff h2_def less_Suc_eq)
  show "components h2 = components h"
    "arrays h2 (projects st) = arrays h (projects st) @ [next_addr h]"
    "\<forall>a<next_addr h. objects h2 a = objects h a"
    by (simp_all add: h2_def)
qed

lemma addProject_frame:
  assumes ok: "store_ok st h" and loc: "\<forall>l\<in>set (listeners st). snapshot_local l"
  shows "arrays (fst (addProject ts random t d p st h)) (projects st)
           = arrays h (projects st) @ [next_addr h]"
    and "contents st (fst (addProject ts random t d p st h))
           = contents st h @ [\<lparr>id' = ts random, title = t, description = d, people = p, status = Active\<rparr>]"
    and "store_ok st (fst (addProject ts random t d p st h))"
proof -
  note step = addProject_step [OF ok, of ts random t d p]
  show "arrays (fst (addProject ts random t d p st h)) (projects st)
           = arrays h (projects st) @ [next_addr h]"
    unfolding step(1) using updateListeners_frame(1) [OF step(3) loc] step(5) by simp
  show "contents st (fst (addProject ts random t d p st h))
           = contents st h @ [\<lparr>id' = ts random, title = t, description = d, people = p, status = Active\<rparr>]"
    unfolding step(1) using updateListeners_frame(2) [OF step(3) loc] step(2) by simp
  show "store_ok st (fst (addProject ts random t d p st h))"
    unfolding step(1) using step(3) loc by (rule updateListeners_frame(3))
qed

text \<open>
  Claim C1, as amended. In every store state whose array and projects are allocated, and
  for all inputs, \<^verbatim>\<open>addProject\<close> first appends exactly one new project to the end of
  the sequence, with the given title, description and people count, status
  \<^verbatim>\<open>Active\<close>, and as id the string form of the number drawn from \<^verbatim>\<open>Math.random()\<close>; the
  projects stored before are unchanged; then it calls \<^verbatim>\<open>updateListeners\<close> on that store.
  The ids stay pairwise distinct whenever the drawn id differs from every id in the store
  (nothing in the code makes it differ). With listeners that write only to the arrays
  they receive, the store holds the extended sequence when \<^verbatim>\<open>addProject\<close> returns, and
  every listener was called once, in order, with the extended sequence.
\<close>

theorem addProject_appends:
  assumes ok: "store_ok st h"
  shows "\<exists>h2. addProject ts random t d p st h = updateListeners st h2
      \<and> contents st h2 = contents st h
            @ [\<lparr>id' = ts random, title = t, description = d, people = p, status = Active\<rparr>]
      \<and> (\<forall>a<next_addr h. objects h2 a = objects h a)
      \<and> store_ok st h2
      \<and> (distinct (map id' (contents st h)) \<and> ts random \<notin> set (map id' (contents st h))
            \<longrightarrow> distinct (map id' (contents st h2)))
      \<and> ((\<forall>l\<in>set (listeners st). snapshot_local l) \<longrightarrow>
            contents st (fst (addProject ts random t d p st h)) = contents st h2
            \<and> map fst (snd (addProject ts random t d p st h)) = [0..<length (listeners st)]
            \<and> list_all (\<lambda>c. snd (snd c) = arrays h2 (projects st))
                 (snd (addProject ts random t d p st h)))"
proof -
  define new where "new = \<lparr>id' = ts random, title = t, description = d, people = p, status = Active\<rparr>"
  define h2 where "h2 = h\<lparr>objects := (objects h)(next_addr h := new),
          next_addr := Suc (next_addr h),
          arrays := (arrays h)(projects st := arrays h (projects st) @ [next_addr h])\<rparr>"
  note step = addProject_step [OF ok, of ts random t d p, folded new_def, folded h2_def]
  have ids: "distinct (map id' (contents st h)) \<and> ts random \<notin> set (map id' (contents st h))
            \<longrightarrow> distinct (map id' (contents st h2))"
    unfolding step(2) by (simp add: new_def)
  have notified: "(\<forall>l\<in>set (listeners st). snapshot_local l) \<longrightarrow>
            contents st (fst (addProject ts random t d p st h)) = contents st h2
            \<and> map fst (snd (addProject ts random t d p st h)) = [0..<length (listeners st)]
            \<and> list_all (\<lambda>c. snd (snd c) = arrays h2 (projects st))
                 (snd (addProject ts random t d p st h))"
  proof
    assume loc: "\<forall>l\<in>set (listeners st). snapshot_local l"
    from updateListeners_frame(2) [OF step(3) loc] updateListeners_calls(1,2) [OF step(3) loc]
    show "contents st (fst (addProject ts random t d p st h)) = contents st h2
            \<and> map fst (snd (addProject ts random t d p st h)) = [0..<length (listeners st)]
            \<and> list_all (\<lambda>c. snd (snd c) = arrays h2 (projects st))
                 (snd (addProject ts random t d p st h))"
      unfolding step(1) by (simp add: list_all_iff)
  qed
  from step(1,2,6,3) ids notified show ?thesis
    unfolding new_def by blast
qed

text \<open>
  Witness for C1: a project with id \<^verbatim>\<open>"0.25"\<close> is appended to the example store, whose
  one project has id \<^verbatim>\<open>"0.5"\<close>; the one listener is called once.
\<close>

theorem addProject_appends_witness:
  "store_ok example_state example_heap
   \<and> snapshot_local clear_items
   \<and> contents example_state
        (fst (addProject (\<lambda>_. [0x30, 0x2E, 0x32, 0x35]) (Finite (1 / 4)) [0x42] [0x43] (Finite 2)
               example_state example_heap))
       = [example_project,
          \<lparr>id' = [0x30, 0x2E, 0x32, 0x35], title = [0x42], description = [0x43], people = Finite 2,
           status = Active\<rparr>]
   \<and> map fst (snd (addProject (\<lambda>_. [0x30, 0x2E, 0x32, 0x35]) (Finite (1 / 4)) [0x42] [0x43] (Finite 2)
               example_state example_heap)) = [0]"
proof -
  have n: "[0..<length (listeners example_state)] = [0]"
    by (simp add: example_state_def)
  from addProject_appends [OF example_ok, of "\<lambda>_. [0x30, 0x2E, 0x32, 0x35]" "Finite (1 / 4)" "[0x42]"
      "[0x43]" "Finite 2"] example_local example_contents n
  have "contents example_state
        (fst (addProject (\<lambda>_. [0x30, 0x2E, 0x32, 0x35]) (Finite (1 / 4)) [0x42] [0x43] (Finite 2)
               example_state example_heap))
       = [example_project,
          \<lparr>id' = [0x30, 0x2E, 0x32, 0x35], title = [0x42], description = [0x43], people = Finite 2,
           status = Active\<rparr>]
    \<and> map fst (snd (addProject (\<lambda>_. [0x30, 0x2E, 0x32, 0x35]) (Finite (1 / 4)) [0x42] [0x43] (Finite 2)
               example_state example_heap)) = [0]"
    by auto
  with example_ok snapshot_local_clear_items show ?thesis
    by simp
qed

text \<open>
  Counterexample for C1 as stated: the new id need not be fresh. On a new store,
  \<^verbatim>\<open>addProject\<close> is called twice and \<^verbatim>\<open>Math.random()\<close> returns \<open>0.5\<close> both times; the second
  project gets the id of the first.
\<close>

theorem addProject_id_collision_counterexample:
  "\<not> (\<forall>ts random t d p st h. store_ok st h \<longrightarrow>
         id' (last (contents st (fst (addProject ts random t d p st h))))
           \<notin> set (map id' (contents st h)))"
proof
  assume claim: "\<forall>ts random t d p st h. store_ok st h \<longrightarrow>
         id' (last (contents st (fst (addProject ts random t d p st h))))
           \<notin> set (map id' (contents st h))"
  define ts :: "number \<Rightarrow> jsstring" where "ts = (\<lambda>_. [0x30, 0x2E, 0x35])"
  define st where "st = fst (new_ProjectState empty_heap)"
  define h0 where "h0 = snd (new_ProjectState empty_heap)"
  define h1 where "h1 = fst (addProject ts (Finite (1 / 2)) [0x41] [0x61] (Finite 3) st h0)"
  define h2 where "h2 = fst (addProject ts (Finite (1 / 2)) [0x42] [0x62] (Finite 4) st h1)"
  have st: "st = \<lparr>listeners = [], projects = 0\<rparr>"
    by (simp add: st_def new_ProjectState_def new_array_def empty_heap_def)
  have h0: "arrays h0 0 = []" "next_addr h0 = Suc 0"
    by (simp_all add: h0_def new_ProjectState_def new_array_def empty_heap_def)
  have h1: "arrays h1 0 = [Suc 0]" "next_addr h1 = Suc (Suc 0)"
    "objects h1 (Suc 0) = \<lparr>id' = [0x30, 0x2E, 0x35], title = [0x41], description = [0x61],
                            people = Finite 3, status = Active\<rparr>"
    by (simp_all add: h1_def h0 st ts_def addProject_eq updateListeners_def)
  have c1: "map id' (contents st h1) = [[0x30, 0x2E, 0x35]]"
    by (simp add: contents_def items_of_def st h1)
  have ok1: "store_ok st h1"
    by (simp add: store_ok_def st h1)
  have c2: "id' (last (contents st h2)) = [0x30, 0x2E, 0x35]"
    by (simp add: contents_def items_of_def h2_def st ts_def addProject_eq updateListeners_def h1)
  from claim ok1 have "id' (last (contents st h2)) \<notin> set (map id' (contents st h1))"
    unfolding h2_def by blast
  then show False
    by (simp add: c1 c2)
qed

subsection \<open>Moving a project\<close>

lemma find_map_objects:
  "map_option f (List.find (\<lambda>r. P (f r)) rs) = List.find P (map f rs)"
  by (induction rs) simp_all

text \<open>The object that \<^verbatim>\<open>find\<close> returns is the first matching project of the sequence.\<close>

lemma find_project_contents:
  "map_option (objects h) (find_project P (projects st) h) = List.find P (contents st h)"
  by (simp add: find_project_def contents_def items_of_def find_map_objects)

lemma map_upd_distinct:
  assumes "distinct rs" and "i < length rs"
  shows "map (f(rs ! i := x)) rs = (map f rs)[i := x]"
proof (rule nth_equalityI)
  show "length (map (f(rs ! i := x)) rs) = length ((map f rs)[i := x])"
    by simp
next
  fix j assume "j < length (map (f(rs ! i := x)) rs)"
  then have j: "j < length rs" by simp
  show "map (f(rs ! i := x)) rs ! j = (map f rs)[i := x] ! j"
  proof (cases "j = i")
    case True
    with j show ?thesis by simp
  next
    case False
    with assms j have "rs ! j \<noteq> rs ! i"
      by (simp add: nth_eq_iff_index_eq)
    with False j show ?thesis by simp
  qed
qed

lemma moveProject_noop:
  assumes "List.find (\<lambda>prj. id' prj = pid) (contents st h) = None
           \<or> (\<exists>prj. List.find (\<lambda>prj. id' prj = pid) (contents st h) = Some prj \<and> status prj = s)"
  shows "moveProject pid s st h = (h, [])"
proof (cases "find_project (\<lambda>prj. id' prj = pid) (projects st) h")
  case None
  then show ?thesis by (simp add: moveProject_def)
next
  case (Some r)
  with find_project_contents [of h "\<lambda>prj. id' prj = pid" st]
  have "List.find (\<lambda>prj. id' prj = pid) (contents st h) = Some (objects h r)"
    by simp
  with assms have "status (objects h r) = s"
    by auto
  with Some show ?thesis by (simp add: moveProject_def)
qed

lemma moveProject_found:
  assumes ok: "store_ok st h"
    and found: "List.find (\<lambda>prj. id' prj = pid) (contents st h) = Some prj"
    and differs: "status prj \<noteq> s"
  shows "\<exists>i. i < length (contents st h) \<and> contents st h ! i = prj
           \<and> (\<forall>j<i. id' (contents st h ! j) \<noteq> pid)
           \<and> moveProject pid s st h =
               updateListeners st
                 (h\<lparr>objects := (objects h)(arrays h (projects st) ! i := prj\<lparr>status := s\<rparr>)\<rparr>)
           \<and> contents st (h\<lparr>objects := (objects h)(arrays h (projects st) ! i := prj\<lparr>status := s\<rparr>)\<rparr>)
               = (contents st h)[i := prj\<lparr>status := s\<rparr>]"
proof -
  define rs where "rs = arrays h (projects st)"
  obtain r where r: "find_project (\<lambda>prj. id' prj = pid) (projects st) h = Some r"
    and obj: "objects h r = prj"
    using find_project_contents [of h "\<lambda>prj. id' prj = pid" st] found
    by (cases "find_project (\<lambda>prj. id' prj = pid) (projects st) h") auto
  from r obtain i where i: "i < length rs" "r = rs ! i"
    and first: "\<forall>j<i. id' (objects h (rs ! j)) \<noteq> pid"
    unfolding find_project_def rs_def find_Some_iff by blast
  have len: "i < length (contents st h)"
    using i(1) by (simp add: contents_def items_of_def rs_def)
  have at: "contents st h ! i = prj"
    using i obj by (simp add: contents_def items_of_def rs_def)
  have first': "\<forall>j<i. id' (contents st h ! j) \<noteq> pid"
    using first i(1) by (simp add: contents_def items_of_def rs_def)
  have mv: "moveProject pid s st h =
      updateListeners st (h\<lparr>objects := (objects h)(rs ! i := prj\<lparr>status := s\<rparr>)\<rparr>)"
    using r obj differs i(2) by (simp add: moveProject_def)
  have "distinct rs"
    using store_ok_D(3) [OF ok] by (simp add: rs_def)
  then have "map ((objects h)(rs ! i := prj\<lparr>status := s\<rparr>)) rs
      = (map (objects h) rs)[i := prj\<lparr>status := s\<rparr>]"
    using i(1) by (rule map_upd_distinct)
  then have cont: "contents st (h\<lparr>objects := (objects h)(rs ! i := prj\<lparr>status := s\<rparr>)\<rparr>)
      = (contents st h)[i := prj\<lparr>status := s\<rparr>]"
    by (simp add: contents_def items_of_def rs_def)
  from len at first' mv cont show ?thesis
    unfolding rs_def by blast
qed

text \<open>What \<^verbatim>\<open>moveProject\<close> itself writes, before any listener runs.\<close>

lemma moveProject_step:
  assumes ok: "store_ok st h"
  shows "\<exists>h1. (moveProject pid s st h = (h, []) \<and> h1 = h
               \<or> moveProject pid s st h = updateListeners st h1)
           \<and> arrays h1 = arrays h \<and> components h1 = components h \<and> next_addr h1 = next_addr h
           \<and> store_ok st h1
           \<and> (contents st h1 = contents st h
               \<or> (\<exists>i<length (contents st h).
                     contents st h1 = (contents st h)[i := (contents st h ! i)\<lparr>status := s\<rparr>]))"
proof (cases "\<exists>prj. List.find (\<lambda>prj. id' prj = pid) (contents st h) = Some prj \<and> status prj \<noteq> s")
  case False
  then have "List.find (\<lambda>prj. id' prj = pid) (contents st h) = None
      \<or> (\<exists>prj. List.find (\<lambda>prj. id' prj = pid) (contents st h) = Some prj \<and> status prj = s)"
    by (cases "List.find (\<lambda>prj. id' prj = pid) (contents st h)") auto
  then have "moveProject pid s st h = (h, [])"
    by (rule moveProject_noop)
  with ok show ?thesis by blast
next
  case True
  then obtain prj where f: "List.find (\<lambda>prj. id' prj = pid) (contents st h) = Some prj"
    and d: "status prj \<noteq> s"
    by blast
  from moveProject_found [OF ok f d]
  obtain i where i: "i < length (contents st h)" "contents st h ! i = prj"
    and mv: "moveProject pid s st h =
               updateListeners st
                 (h\<lparr>objects := (objects h)(arrays h (projects st) ! i := prj\<lparr>status := s\<rparr>)\<rparr>)"
    and cont: "contents st (h\<lparr>objects := (objects h)(arrays h (projects st) ! i := prj\<lparr>status := s\<rparr>)\<rparr>)
               = (contents st h)[i := prj\<lparr>status := s\<rparr>]"
    by blast
  define h1 where "h1 = h\<lparr>objects := (objects h)(arrays h (projects st) ! i := prj\<lparr>status := s\<rparr>)\<rparr>"
  have ok1: "store_ok st h1"
    using ok by (simp add: h1_def store_ok_objects_upd)
  have same: "arrays h1 = arrays h" "components h1 = components h" "next_addr h1 = next_addr h"
    by (simp_all add: h1_def)
  have c: "contents st h1 = (contents st h)[i := (contents st h ! i)\<lparr>status := s\<rparr>]"
    using cont i(2) by (simp add: h1_def)
  from mv i(1) c same ok1 show ?thesis
    unfolding h1_def [symmetric] by blast
qed

lemma moveProject_found_frame:
  assumes ok: "store_ok st h" and loc: "\<forall>l\<in>set (listeners st). snapshot_local l"
    and found: "List.find (\<lambda>prj. id' prj = pid) (contents st h) = Some prj"
    and differs: "status prj \<noteq> s"
  shows "\<exists>i. i < length (contents st h) \<and> contents st h ! i = prj
           \<and> (\<forall>j<i. id' (contents st h ! j) \<noteq> pid)
           \<and> contents st (fst (moveProject pid s st h)) = (contents st h)[i := prj\<lparr>status := s\<rparr>]"
    and "store_ok st (fst (moveProject pid s st h))"
    and "map fst (snd (moveProject pid s st h)) = [0..<length (listeners st)]"
proof -
  from moveProject_found [OF ok found differs]
  obtain i where i: "i < length (contents st h)" "contents st h ! i = prj"
      "\<forall>j<i. id' (contents st h ! j) \<noteq> pid"
    and mv: "moveProject pid s st h =
               updateListeners st
                 (h\<lparr>objects := (objects h)(arrays h (projects st) ! i := prj\<lparr>status := s\<rparr>)\<rparr>)"
    and cont: "contents st (h\<lparr>objects := (objects h)(arrays h (projects st) ! i := prj\<lparr>status := s\<rparr>)\<rparr>)
               = (contents st h)[i := prj\<lparr>status := s\<rparr>]"
    by blast
  define h1 where "h1 = h\<lparr>objects := (objects h)(arrays h (projects st) ! i := prj\<lparr>status := s\<rparr>)\<rparr>"
  have ok1: "store_ok st h1"
    using ok by (simp add: h1_def store_ok_objects_upd)
  have "contents st (fst (moveProject pid s st h)) = (contents st h)[i := prj\<lparr>status := s\<rparr>]"
    using updateListeners_frame(2) [OF ok1 loc] cont by (simp add: mv h1_def)
  with i show "\<exists>i. i < length (contents st h) \<and> contents st h ! i = prj
           \<and> (\<forall>j<i. id' (contents st h ! j) \<noteq> pid)
           \<and> contents st (fst (moveProject pid s st h)) = (contents st h)[i := prj\<lparr>status := s\<rparr>]"
    by blast
  show "store_ok st (fst (moveProject pid s st h))"
    using updateListeners_frame(3) [OF ok1 loc] by (simp add: mv h1_def)
  show "map fst (snd (moveProject pid s st h)) = [0..<length (listeners st)]"
    using notify_indices [of 0 "listeners st" "projects st" h1]
    by (simp add: mv h1_def updateListeners_def)
qed

text \<open>
  Claim C2. In every store state whose array and projects are allocated (no project twice
  in the array): when no project has the id, or the first project with the id already has
  the new status, \<^verbatim>\<open>moveProject\<close> returns with the heap unchanged and without calling any
  listener. When the first project with the id has another status, \<^verbatim>\<open>moveProject\<close> sets
  the status of exactly that project, in place (the sequence is otherwise the same, no
  array is written, nothing is allocated), and then calls \<^verbatim>\<open>updateListeners\<close>; with
  listeners that write only to the arrays they receive, the store holds the updated
  sequence on return and every listener was called once, in order. No case signals an error.
\<close>

theorem moveProject_cases:
  assumes ok: "store_ok st h"
  shows
    "(List.find (\<lambda>prj. id' prj = pid) (contents st h) = None \<longrightarrow> moveProject pid s st h = (h, []))
   \<and> (\<forall>prj. List.find (\<lambda>prj. id' prj = pid) (contents st h) = Some prj \<and> status prj = s
          \<longrightarrow> moveProject pid s st h = (h, []))
   \<and> (\<forall>prj. List.find (\<lambda>prj. id' prj = pid) (contents st h) = Some prj \<and> status prj \<noteq> s \<longrightarrow>
        (\<exists>i h1. i < length (contents st h) \<and> contents st h ! i = prj
           \<and> (\<forall>j<i. id' (contents st h ! j) \<noteq> pid)
           \<and> contents st h1 = (contents st h)[i := prj\<lparr>status := s\<rparr>]
           \<and> arrays h1 = arrays h \<and> components h1 = components h \<and> next_addr h1 = next_addr h
           \<and> moveProject pid s st h = updateListeners st h1
           \<and> ((\<forall>l\<in>set (listeners st). snapshot_local l) \<longrightarrow>
                 contents st (fst (moveProject pid s st h)) = contents st h1
                 \<and> map fst (snd (moveProject pid s st h)) = [0..<length (listeners st)])))"
proof (intro conjI allI impI)
  assume "List.find (\<lambda>prj. id' prj = pid) (contents st h) = None"
  then show "moveProject pid s st h = (h, [])"
    by (simp add: moveProject_noop)
next
  fix prj assume "List.find (\<lambda>prj. id' prj = pid) (contents st h) = Some prj \<and> status prj = s"
  then show "moveProject pid s st h = (h, [])"
    by (simp add: moveProject_noop)
next
  fix prj assume a: "List.find (\<lambda>prj. id' prj = pid) (contents st h) = Some prj \<and> status prj \<noteq> s"
  then obtain i where i: "i < length (contents st h)" "contents st h ! i = prj"
      "\<forall>j<i. id' (contents st h ! j) \<noteq> pid"
    and mv: "moveProject pid s st h =
               updateListeners st
                 (h\<lparr>objects := (objects h)(arrays h (projects st) ! i := prj\<lparr>status := s\<rparr>)\<rparr>)"
    and cont: "contents st (h\<lparr>objects := (objects h)(arrays h (projects st) ! i := prj\<lparr>status := s\<rparr>)\<rparr>)
               = (contents st h)[i := prj\<lparr>status := s\<rparr>]"
    using moveProject_found [OF ok, of pid prj s] by blast
  define h1 where "h1 = h\<lparr>objects := (objects h)(arrays h (projects st) ! i := prj\<lparr>status := s\<rparr>)\<rparr>"
  have ok1: "store_ok st h1"
    using ok by (simp add: h1_def store_ok_objects_upd)
  have same: "arrays h1 = arrays h" "components h1 = components h" "next_addr h1 = next_addr h"
    by (simp_all add: h1_def)
  have notified: "(\<forall>l\<in>set (listeners st). snapshot_local l) \<longrightarrow>
                 contents st (fst (moveProject pid s st h)) = contents st h1
                 \<and> map fst (snd (moveProject pid s st h)) = [0..<length (listeners st)]"
    using updateListeners_frame(2) [OF ok1] notify_indices [of 0 "listeners st" "projects st" h1]
    by (simp add: mv h1_def [symmetric] updateListeners_def)
  from i mv cont same notified
  show "\<exists>i h1. i < length (contents st h) \<and> contents st h ! i = prj
           \<and> (\<forall>j<i. id' (contents st h ! j) \<noteq> pid)
           \<and> contents st h1 = (contents st h)[i := prj\<lparr>status := s\<rparr>]
           \<and> arrays h1 = arrays h \<and> components h1 = components h \<and> next_addr h1 = next_addr h
           \<and> moveProject pid s st h = updateListeners st h1
           \<and> ((\<forall>l\<in>set (listeners st). snapshot_local l) \<longrightarrow>
                 contents st (fst (moveProject pid s st h)) = contents st h1
                 \<and> map fst (snd (moveProject pid s st h)) = [0..<length (listeners st)])"
    unfolding h1_def [symmetric] by blast
qed

text \<open>
  Witness for C2, on the example store (one \<^verbatim>\<open>Active\<close> project with id \<^verbatim>\<open>"0.5"\<close>, one
  listener): an unknown id and the same status are no-ops without a call; moving to
  \<^verbatim>\<open>Finished\<close> changes the status and calls the listener once.
\<close>

theorem moveProject_cases_witness:
  "store_ok example_state example_heap
   \<and> moveProject [0x78] Finished example_state example_heap = (example_heap, [])
   \<and> moveProject [0x30, 0x2E, 0x35] Active example_state example_heap = (example_heap, [])
   \<and> contents example_state (fst (moveProject [0x30, 0x2E, 0x35] Finished example_state example_heap))
       = [example_project\<lparr>status := Finished\<rparr>]
   \<and> map fst (snd (moveProject [0x30, 0x2E, 0x35] Finished example_state example_heap)) = [0]"
proof -
  have none: "List.find (\<lambda>prj. id' prj = [0x78]) (contents example_state example_heap) = None"
    by (simp add: example_contents example_project_def)
  have some: "List.find (\<lambda>prj. id' prj = [0x30, 0x2E, 0x35]) (contents example_state example_heap)
      = Some example_project"
    by (simp add: example_contents example_project_def)
  have st: "status example_project = Active" "status example_project \<noteq> Finished"
    by (simp_all add: example_project_def)
  have n: "length (listeners example_state) = 1"
    by (simp add: example_state_def)
  from moveProject_cases [OF example_ok, of "[0x78]" Finished] none
  have a: "moveProject [0x78] Finished example_state example_heap = (example_heap, [])"
    by blast
  from moveProject_cases [OF example_ok, of "[0x30, 0x2E, 0x35]" Active] some st(1)
  have b: "moveProject [0x30, 0x2E, 0x35] Active example_state example_heap = (example_heap, [])"
    by blast
  from moveProject_cases [OF example_ok, of "[0x30, 0x2E, 0x35]" Finished] some st(2) example_local
  obtain i h1 where i: "i < length (contents example_state example_heap)"
    and c: "contents example_state h1
              = (contents example_state example_heap)[i := example_project\<lparr>status := Finished\<rparr>]"
    and f: "contents example_state (fst (moveProject [0x30, 0x2E, 0x35] Finished example_state example_heap))
              = contents example_state h1"
    and l: "map fst (snd (moveProject [0x30, 0x2E, 0x35] Finished example_state example_heap))
              = [0..<length (listeners example_state)]"
    by blast
  from i have "i = 0"
    by (simp add: example_contents)
  with c f have d: "contents example_state
        (fst (moveProject [0x30, 0x2E, 0x35] Finished example_state example_heap))
       = [example_project\<lparr>status := Finished\<rparr>]"
    by (simp add: example_contents)
  from l n have e: "map fst (snd (moveProject [0x30, 0x2E, 0x35] Finished example_state example_heap)) = [0]"
    by simp
  from example_ok a b d e show ?thesis
    by simp
qed

subsection \<open>What the operations leave alone\<close>

lemma map_field_status_upd:
  assumes "i < length xs"
  shows "map id' (xs[i := (xs ! i)\<lparr>status := s\<rparr>]) = map id' xs"
    and "map title (xs[i := (xs ! i)\<lparr>status := s\<rparr>]) = map title xs"
    and "map description (xs[i := (xs ! i)\<lparr>status := s\<rparr>]) = map description xs"
    and "map people (xs[i := (xs ! i)\<lparr>status := s\<rparr>]) = map people xs"
  using assms by (simp_all add: map_update list_update_same_conv)

lemma status_upd_fields:
  assumes "ys = xs \<or> (\<exists>i<length xs. ys = xs[i := (xs ! i)\<lparr>status := s\<rparr>])"
  shows "length ys = length xs \<and> map id' ys = map id' xs \<and> map title ys = map title xs
     \<and> map description ys = map description xs \<and> map people ys = map people xs"
  using assms
proof
  assume "ys = xs"
  then show ?thesis by simp
next
  assume "\<exists>i<length xs. ys = xs[i := (xs ! i)\<lparr>status := s\<rparr>]"
  then obtain i where i: "i < length xs" and ys: "ys = xs[i := (xs ! i)\<lparr>status := s\<rparr>]"
    by blast
  show ?thesis
    unfolding ys using map_field_status_upd [OF i, of s] by simp
qed

text \<open>
  Claim C7. In every store state whose array and projects are allocated: the write that
  \<^verbatim>\<open>moveProject\<close> makes before it notifies leaves every array as it is (so the sequence
  keeps its length, its order and its objects) and leaves the id, title, description and
  people count of every project as they are; the writes that \<^verbatim>\<open>addProject\<close> makes before
  it notifies keep every project that was stored, in place, and add one at the end. With
  listeners that write only to the arrays they receive, the same holds of the store when
  \<^verbatim>\<open>moveProject\<close>, \<^verbatim>\<open>addProject\<close> and \<^verbatim>\<open>updateListeners\<close> return; \<^verbatim>\<open>addListener\<close> does
  not touch the heap. So no operation removes or reorders a project, and only
  \<^verbatim>\<open>moveProject\<close> changes a stored project, in its status alone.
\<close>

theorem store_operations_frame:
  assumes ok: "store_ok st h"
  shows
    "(\<exists>h1. (moveProject pid s st h = (h, []) \<and> h1 = h
             \<or> moveProject pid s st h = updateListeners st h1)
        \<and> arrays h1 = arrays h
        \<and> length (contents st h1) = length (contents st h)
        \<and> map id' (contents st h1) = map id' (contents st h)
        \<and> map title (contents st h1) = map title (contents st h)
        \<and> map description (contents st h1) = map description (contents st h)
        \<and> map people (contents st h1) = map people (contents st h))
   \<and> (\<exists>h2. addProject ts random t d p st h = updateListeners st h2
        \<and> arrays h2 (projects st) = arrays h (projects st) @ [next_addr h]
        \<and> take (length (contents st h)) (contents st h2) = contents st h
        \<and> length (contents st h2) = Suc (length (contents st h)))
   \<and> ((\<forall>l\<in>set (listeners st). snapshot_local l) \<longrightarrow>
        arrays (fst (moveProject pid s st h)) (projects st) = arrays h (projects st)
        \<and> length (contents st (fst (moveProject pid s st h))) = length (contents st h)
        \<and> map id' (contents st (fst (moveProject pid s st h))) = map id' (contents st h)
        \<and> map title (contents st (fst (moveProject pid s st h))) = map title (contents st h)
        \<and> map description (contents st (fst (moveProject pid s st h)))
            = map description (contents st h)
        \<and> map people (contents st (fst (moveProject pid s st h))) = map people (contents st h)
        \<and> arrays (fst (addProject ts random t d p st h)) (projects st)
            = arrays h (projects st) @ [next_addr h]
        \<and> take (length (contents st h)) (contents st (fst (addProject ts random t d p st h)))
            = contents st h
        \<and> length (contents st (fst (addProject ts random t d p st h))) = Suc (length (contents st h))
        \<and> arrays (fst (updateListeners st h)) (projects st) = arrays h (projects st)
        \<and> contents st (fst (updateListeners st h)) = contents st h)
   \<and> projects (addListener l st) = projects st
   \<and> contents (addListener l st) h = contents st h"
proof -
  from moveProject_step [OF ok, of pid s]
  obtain h1 where res: "moveProject pid s st h = (h, []) \<and> h1 = h
               \<or> moveProject pid s st h = updateListeners st h1"
    and arr1: "arrays h1 = arrays h" and ok1: "store_ok st h1"
    and c1: "contents st h1 = contents st h
               \<or> (\<exists>i<length (contents st h).
                     contents st h1 = (contents st h)[i := (contents st h ! i)\<lparr>status := s\<rparr>])"
    by blast
  note fields1 = status_upd_fields [OF c1]
  have own_move: "\<exists>h1. (moveProject pid s st h = (h, []) \<and> h1 = h
             \<or> moveProject pid s st h = updateListeners st h1)
        \<and> arrays h1 = arrays h
        \<and> length (contents st h1) = length (contents st h)
        \<and> map id' (contents st h1) = map id' (contents st h)
        \<and> map title (contents st h1) = map title (contents st h)
        \<and> map description (contents st h1) = map description (contents st h)
        \<and> map people (contents st h1) = map people (contents st h)"
    using res arr1 fields1 by blast
  define h2 where "h2 = h\<lparr>objects := (objects h)
             (next_addr h := \<lparr>id' = ts random, title = t, description = d, people = p, status = Active\<rparr>),
          next_addr := Suc (next_addr h),
          arrays := (arrays h)(projects st := arrays h (projects st) @ [next_addr h])\<rparr>"
  note step = addProject_step [OF ok, of ts random t d p, folded h2_def]
  have "addProject ts random t d p st h = updateListeners st h2
        \<and> arrays h2 (projects st) = arrays h (projects st) @ [next_addr h]
        \<and> take (length (contents st h)) (contents st h2) = contents st h
        \<and> length (contents st h2) = Suc (length (contents st h))"
    using step(1,2,5) by simp
  then have own_add: "\<exists>h2. addProject ts random t d p st h = updateListeners st h2
        \<and> arrays h2 (projects st) = arrays h (projects st) @ [next_addr h]
        \<and> take (length (contents st h)) (contents st h2) = contents st h
        \<and> length (contents st h2) = Suc (length (contents st h))"
    by (rule exI)
  have full: "(\<forall>l\<in>set (listeners st). snapshot_local l) \<longrightarrow>
        arrays (fst (moveProject pid s st h)) (projects st) = arrays h (projects st)
        \<and> length (contents st (fst (moveProject pid s st h))) = length (contents st h)
        \<and> map id' (contents st (fst (moveProject pid s st h))) = map id' (contents st h)
        \<and> map title (contents st (fst (moveProject pid s st h))) = map title (contents st h)
        \<and> map description (contents st (fst (moveProject pid s st h)))
            = map description (contents st h)
        \<and> map people (contents st (fst (moveProject pid s st h))) = map people (contents st h)
        \<and> arrays (fst (addProject ts random t d p st h)) (projects st)
            = arrays h (projects st) @ [next_addr h]
        \<and> take (length (contents st h)) (contents st (fst (addProject ts random t d p st h)))
            = contents st h
        \<and> length (contents st (fst (addProject ts random t d p st h))) = Suc (length (contents st h))
        \<and> arrays (fst (updateListeners st h)) (projects st) = arrays h (projects st)
        \<and> contents st (fst (updateListeners st h)) = contents st h"
  proof
    assume loc: "\<forall>l\<in>set (listeners st). snapshot_local l"
    have mv: "arrays (fst (moveProject pid s st h)) (projects st) = arrays h1 (projects st)
        \<and> contents st (fst (moveProject pid s st h)) = contents st h1"
      using res
    proof
      assume "moveProject pid s st h = (h, []) \<and> h1 = h"
      then show ?thesis by simp
    next
      assume "moveProject pid s st h = updateListeners st h1"
      then show ?thesis
        using updateListeners_frame(1,2) [OF ok1 loc] by simp
    qed
    have add: "arrays (fst (addProject ts random t d p st h)) (projects st)
            = arrays h (projects st) @ [next_addr h]"
      "take (length (contents st h)) (contents st (fst (addProject ts random t d p st h)))
            = contents st h"
      "length (contents st (fst (addProject ts random t d p st h))) = Suc (length (contents st h))"
      using addProject_frame(1,2) [OF ok loc, of ts random t d p] by simp_all
    from mv arr1 fields1 add updateListeners_frame(1,2) [OF ok loc]
    show "arrays (fst (moveProject pid s st h)) (projects st) = arrays h (projects st)
        \<and> length (contents st (fst (moveProject pid s st h))) = length (contents st h)
        \<and> map id' (contents st (fst (moveProject pid s st h))) = map id' (contents st h)
        \<and> map title (contents st (fst (moveProject pid s st h))) = map title (contents st h)
        \<and> map description (contents st (fst (moveProject pid s st h)))
            = map description (contents st h)
        \<and> map people (contents st (fst (moveProject pid s st h))) = map people (contents st h)
        \<and> arrays (fst (addProject ts random t d p st h)) (projects st)
            = arrays h (projects st) @ [next_addr h]
        \<and> take (length (contents st h)) (contents st (fst (addProject ts random t d p st h)))
            = contents st h
        \<and> length (contents st (fst (addProject ts random t d p st h))) = Suc (length (contents st h))
        \<and> arrays (fst (updateListeners st h)) (projects st) = arrays h (projects st)
        \<and> contents st (fst (updateListeners st h)) = contents st h"
      by simp
  qed
  have reg: "projects (addListener l st) = projects st" "contents (addListener l st) h = contents st h"
    by (simp_all add: addListener_def contents_def)
  from own_move own_add full reg show ?thesis
    by blast
qed

text \<open>
  Witness for C7, on the example store: after \<^verbatim>\<open>moveProject\<close> the title and the array
  are as before, and after \<^verbatim>\<open>addProject\<close> the array has one more element and the first
  project is as before.
\<close>

theorem store_operations_frame_witness:
  "store_ok example_state example_heap
   \<and> snapshot_local clear_items
   \<and> map title (contents example_state
        (fst (moveProject [0x30, 0x2E, 0x35] Finished example_state example_heap))) = [[0x41]]
   \<and> arrays (fst (moveProject [0x30, 0x2E, 0x35] Finished example_state example_heap)) 0 = [1]
   \<and> arrays (fst (addProject (\<lambda>_. [0x30, 0x2E, 0x32, 0x35]) (Finite (1 / 4)) [0x42] [0x43] (Finite 2)
               example_state example_heap)) 0 = [1, 2]
   \<and> take 1 (contents example_state
        (fst (addProject (\<lambda>_. [0x30, 0x2E, 0x32, 0x35]) (Finite (1 / 4)) [0x42] [0x43] (Finite 2)
               example_state example_heap))) = [example_project]"
proof -
  have arr: "arrays example_heap (projects example_state) = [1]" "projects example_state = 0"
    "next_addr example_heap = 2"
    by (simp_all add: example_state_def example_heap_def empty_heap_def)
  have t: "map title (contents example_state example_heap) = [[0x41]]"
    by (simp add: example_contents example_project_def)
  from store_operations_frame [OF example_ok,
      of "[0x30, 0x2E, 0x35]" Finished "\<lambda>_. [0x30, 0x2E, 0x32, 0x35]" "Finite (1 / 4)" "[0x42]" "[0x43]"
         "Finite 2"]
    example_local
  have "arrays (fst (moveProject [0x30, 0x2E, 0x35] Finished example_state example_heap))
           (projects example_state) = arrays example_heap (projects example_state)
     \<and> map title (contents example_state
          (fst (moveProject [0x30, 0x2E, 0x35] Finished example_state example_heap)))
         = map title (contents example_state example_heap)
     \<and> arrays (fst (addProject (\<lambda>_. [0x30, 0x2E, 0x32, 0x35]) (Finite (1 / 4)) [0x42] [0x43] (Finite 2)
               example_state example_heap)) (projects example_state)
         = arrays example_heap (projects example_state) @ [next_addr example_heap]
     \<and> take (length (contents example_state example_heap)) (contents example_state
        (fst (addProject (\<lambda>_. [0x30, 0x2E, 0x32, 0x35]) (Finite (1 / 4)) [0x42] [0x43] (Finite 2)
               example_state example_heap))) = contents example_state example_heap"
    by blast
  with example_ok snapshot_local_clear_items arr t show ?thesis
    by (simp add: example_contents)
qed

subsection \<open>Moving a project there and back\<close>

text \<open>
  Claim C9, as amended. In every store state whose array and projects are allocated, with
  listeners that write only to the arrays they receive, and for every id whose first
  project in the sequence has status \<^verbatim>\<open>Active\<close> (as every \<^verbatim>\<open>Active\<close> project's id has
  when the ids are pairwise distinct): \<^verbatim>\<open>moveProject(id, Finished)\<close> followed by
  \<^verbatim>\<open>moveProject(id, Active)\<close> restores the sequence exactly; the sequence in between
  differs from it; and each of the two calls notifies once, calling every listener once,
  in order.
\<close>

theorem moveProject_round_trip:
  assumes ok: "store_ok st h" and loc: "\<forall>l\<in>set (listeners st). snapshot_local l"
    and found: "List.find (\<lambda>prj. id' prj = pid) (contents st h) = Some prj"
    and act: "status prj = Active"
  shows "contents st (fst (moveProject pid Active st (fst (moveProject pid Finished st h))))
           = contents st h
       \<and> contents st (fst (moveProject pid Finished st h)) \<noteq> contents st h
       \<and> map fst (snd (moveProject pid Finished st h)) = [0..<length (listeners st)]
       \<and> map fst (snd (moveProject pid Active st (fst (moveProject pid Finished st h))))
           = [0..<length (listeners st)]"
proof -
  define cs where "cs = contents st h"
  define h1 where "h1 = fst (moveProject pid Finished st h)"
  define fin where "fin = prj\<lparr>status := Finished\<rparr>"
  have differs: "status prj \<noteq> Finished"
    using act by simp
  from moveProject_found_frame(1) [OF ok loc found differs]
  obtain i where i: "i < length cs" "cs ! i = prj" "\<forall>j<i. id' (cs ! j) \<noteq> pid"
    and c1: "contents st h1 = cs[i := fin]"
    unfolding cs_def h1_def fin_def by blast
  have ok1: "store_ok st h1"
    unfolding h1_def using ok loc found differs by (rule moveProject_found_frame(2))
  have calls1: "map fst (snd (moveProject pid Finished st h)) = [0..<length (listeners st)]"
    using ok loc found differs by (rule moveProject_found_frame(3))
  have idp: "id' prj = pid"
    using found by (auto simp: find_Some_iff)
  have found1: "List.find (\<lambda>prj. id' prj = pid) (contents st h1) = Some fin"
    unfolding c1 find_Some_iff
  proof (intro exI [of _ i] conjI)
    show "i < length (cs[i := fin])" using i(1) by simp
    show "id' (cs[i := fin] ! i) = pid" using i(1) idp by (simp add: fin_def)
    show "fin = cs[i := fin] ! i" using i(1) by simp
    show "\<forall>j<i. \<not> id' (cs[i := fin] ! j) = pid" using i(3) by simp
  qed
  have differs1: "status fin \<noteq> Active"
    by (simp add: fin_def)
  from moveProject_found_frame(1) [OF ok1 loc found1 differs1]
  obtain k where k: "k < length (cs[i := fin])" "cs[i := fin] ! k = fin"
      "\<forall>j<k. id' (cs[i := fin] ! j) \<noteq> pid"
    and c2: "contents st (fst (moveProject pid Active st h1)) = (cs[i := fin])[k := fin\<lparr>status := Active\<rparr>]"
    unfolding c1 by blast
  have "\<not> i < k"
  proof
    assume "i < k"
    with k(3) have "id' (cs[i := fin] ! i) \<noteq> pid" by blast
    with i(1) idp show False by (simp add: fin_def)
  qed
  moreover have "\<not> k < i"
  proof
    assume "k < i"
    with i(3) have "id' (cs ! k) \<noteq> pid" by blast
    moreover from \<open>k < i\<close> k(2) have "cs ! k = fin" by simp
    ultimately show False using idp by (simp add: fin_def)
  qed
  ultimately have ki: "k = i" by simp
  have undo: "fin\<lparr>status := Active\<rparr> = prj"
    using act by (simp add: fin_def)
  have "contents st (fst (moveProject pid Active st h1)) = cs[i := prj]"
    unfolding c2 ki undo by simp
  moreover have "cs[i := prj] = cs"
    using i(2) list_update_id [of cs i] by simp
  ultimately have round: "contents st (fst (moveProject pid Active st h1)) = cs"
    by simp
  have changed: "contents st h1 \<noteq> cs"
  proof
    assume "contents st h1 = cs"
    then have "cs[i := fin] ! i = cs ! i" using c1 by simp
    with i(1,2) have "fin = prj" by simp
    then have "status fin = status prj" by simp
    with act show False by (simp add: fin_def)
  qed
  have calls2: "map fst (snd (moveProject pid Active st h1)) = [0..<length (listeners st)]"
    using ok1 loc found1 differs1 by (rule moveProject_found_frame(3))
  from round changed calls1 calls2 show ?thesis
    unfolding cs_def h1_def by simp
qed

text \<open>
  Witness for C9, on the example store: the project with id \<^verbatim>\<open>"0.5"\<close> goes to
  \<^verbatim>\<open>Finished\<close> and back, and the listener is called once by the second call.
\<close>

theorem moveProject_round_trip_witness:
  "store_ok example_state example_heap
   \<and> snapshot_local clear_items
   \<and> List.find (\<lambda>prj. id' prj = [0x30, 0x2E, 0x35]) (contents example_state example_heap)
       = Some example_project
   \<and> status example_project = Active
   \<and> contents example_state
        (fst (moveProject [0x30, 0x2E, 0x35] Active example_state
               (fst (moveProject [0x30, 0x2E, 0x35] Finished example_state example_heap))))
       = [example_project]
   \<and> map fst (snd (moveProject [0x30, 0x2E, 0x35] Active example_state
               (fst (moveProject [0x30, 0x2E, 0x35] Finished example_state example_heap)))) = [0]"
proof -
  have some: "List.find (\<lambda>prj. id' prj = [0x30, 0x2E, 0x35]) (contents example_state example_heap)
      = Some example_project"
    by (simp add: example_contents example_project_def)
  have act: "status example_project = Active"
    by (simp add: example_project_def)
  have n: "[0..<length (listeners example_state)] = [0]"
    by (simp add: example_state_def)
  from moveProject_round_trip [OF example_ok example_local some act] n
    example_ok snapshot_local_clear_items some act
  show ?thesis
    by (simp add: example_contents)
qed

text \<open>
  Counterexample for C9 as stated: the id of an \<^verbatim>\<open>Active\<close> project need not be the id
  of an \<^verbatim>\<open>Active\<close> first match. On a new store without listeners, project A is added
  and moved to \<^verbatim>\<open>Finished\<close>, then project B is added, and \<^verbatim>\<open>Math.random()\<close> returns
  \<open>0.5\<close> both times. B is \<^verbatim>\<open>Active\<close> and has the id \<^verbatim>\<open>"0.5"\<close>, but
  \<^verbatim>\<open>moveProject("0.5", Finished)\<close> finds A and does nothing, and
  \<^verbatim>\<open>moveProject("0.5", Active)\<close> then makes A \<^verbatim>\<open>Active\<close>: the sequence is not restored.
\<close>

theorem moveProject_round_trip_counterexample:
  "\<not> (\<forall>st h pid. store_ok st h \<longrightarrow> (\<forall>l\<in>set (listeners st). snapshot_local l) \<longrightarrow>
         (\<exists>prj\<in>set (contents st h). id' prj = pid \<and> status prj = Active) \<longrightarrow>
         contents st (fst (moveProject pid Active st (fst (moveProject pid Finished st h))))
           = contents st h)"
proof
  assume claim: "\<forall>st h pid. store_ok st h \<longrightarrow> (\<forall>l\<in>set (listeners st). snapshot_local l) \<longrightarrow>
         (\<exists>prj\<in>set (contents st h). id' prj = pid \<and> status prj = Active) \<longrightarrow>
         contents st (fst (moveProject pid Active st (fst (moveProject pid Finished st h))))
           = contents st h"
  define ts :: "number \<Rightarrow> jsstring" where "ts = (\<lambda>_. [0x30, 0x2E, 0x35])"
  define st where "st = fst (new_ProjectState empty_heap)"
  define h0 where "h0 = snd (new_ProjectState empty_heap)"
  define h1 where "h1 = fst (addProject ts (Finite (1 / 2)) [0x41] [0x61] (Finite 3) st h0)"
  define h2 where "h2 = fst (moveProject [0x30, 0x2E, 0x35] Finished st h1)"
  define h3 where "h3 = fst (addProject ts (Finite (1 / 2)) [0x42] [0x62] (Finite 4) st h2)"
  define h4 where "h4 = fst (moveProject [0x30, 0x2E, 0x35] Finished st h3)"
  define h5 where "h5 = fst (moveProject [0x30, 0x2E, 0x35] Active st h4)"
  define A where "A = \<lparr>id' = [0x30, 0x2E, 0x35], title = [0x41], description = [0x61],
                        people = Finite 3, status = Finished\<rparr>"
  define B where "B = \<lparr>id' = [0x30, 0x2E, 0x35], title = [0x42], description = [0x62],
                        people = Finite 4, status = Active\<rparr>"
  have st: "st = \<lparr>listeners = [], projects = 0\<rparr>"
    by (simp add: st_def new_ProjectState_def new_array_def empty_heap_def)
  have h0: "arrays h0 0 = []" "next_addr h0 = Suc 0"
    by (simp_all add: h0_def new_ProjectState_def new_array_def empty_heap_def)
  have h1: "arrays h1 0 = [Suc 0]" "next_addr h1 = Suc (Suc 0)"
    "objects h1 (Suc 0) = A\<lparr>status := Active\<rparr>"
    by (simp_all add: h1_def h0 st ts_def addProject_eq updateListeners_def A_def)
  have h2: "arrays h2 0 = [Suc 0]" "next_addr h2 = Suc (Suc 0)" "objects h2 (Suc 0) = A"
    by (simp_all add: h2_def st moveProject_def find_project_def updateListeners_def h1 A_def)
  have h3: "arrays h3 0 = [Suc 0, Suc (Suc 0)]" "next_addr h3 = Suc (Suc (Suc 0))"
    "objects h3 (Suc 0) = A" "objects h3 (Suc (Suc 0)) = B"
    by (simp_all add: h3_def st ts_def addProject_eq updateListeners_def h2 B_def)
  have c3: "contents st h3 = [A, B]"
    by (simp add: contents_def items_of_def st h3)
  have ok3: "store_ok st h3"
    by (simp add: store_ok_def st h3)
  have h4: "h4 = h3"
    by (simp add: h4_def st moveProject_def find_project_def h3 A_def)
  have h5: "arrays h5 0 = [Suc 0, Suc (Suc 0)]" "objects h5 (Suc 0) = A\<lparr>status := Active\<rparr>"
    "objects h5 (Suc (Suc 0)) = B"
    by (simp_all add: h5_def h4 st moveProject_def find_project_def updateListeners_def h3 A_def)
  have c5: "contents st h5 = [A\<lparr>status := Active\<rparr>, B]"
    by (simp add: contents_def items_of_def st h5)
  have loc: "\<forall>l\<in>set (listeners st). snapshot_local l"
    by (simp add: st)
  have present: "\<exists>prj\<in>set (contents st h3). id' prj = [0x30, 0x2E, 0x35] \<and> status prj = Active"
    by (simp add: c3 A_def B_def)
  from claim ok3 loc present have "contents st h5 = contents st h3"
    unfolding h5_def h4_def by blast
  then show False
    by (simp add: c3 c5 A_def)
qed

subsection \<open>The list components\<close>

lemma listener_result:
  "items_of (ProjectList_listener this items h)
      (assignedProjects (components (ProjectList_listener this items h) this))
     = filter (\<lambda>prj. if projectType (components h this) = active
                       then status prj = Active else status prj = Finished) (items_of h items)"
  by (simp add: ProjectList_listener_eq items_of_def filter_map comp_def)

lemma listener_fields:
  "next_addr (ProjectList_listener this items h) = Suc (next_addr h)"
  "objects (ProjectList_listener this items h) = objects h"
  "projectType (components (ProjectList_listener this items h) c) = projectType (components h c)"
  "assignedProjects (components (ProjectList_listener this items h) this) = next_addr h"
  "c \<noteq> this \<Longrightarrow> components (ProjectList_listener this items h) c = components h c"
  "arrays (ProjectList_listener this items h) (next_addr h) =
     filter (\<lambda>r. if projectType (components h this) = active
                  then status (objects h r) = Active
                  else status (objects h r) = Finished) (arrays h items)"
  "b \<noteq> next_addr h \<Longrightarrow> arrays (ProjectList_listener this items h) b = arrays h b"
  by (simp_all add: ProjectList_listener_eq)

lemma notify_two:
  "fst (notify i [l1, l2] p h) =
     l2 (fst (slice p (l1 (fst (slice p h)) (snd (slice p h)))))
        (snd (slice p (l1 (fst (slice p h)) (snd (slice p h)))))"
  by (simp add: case_prod_beta Let_def)

text \<open>One notification of the two lists, as \<^verbatim>\<open>app.ts\<close> registers them.\<close>

lemma lists_notified:
  assumes ok: "store_ok st h"
    and ls: "listeners st = [ProjectList_listener a, ProjectList_listener f]"
    and ta: "projectType (components h a) = active"
    and tf: "projectType (components h f) = finished"
  shows "items_of (fst (updateListeners st h)) (assignedProjects (components (fst (updateListeners st h)) a))
           = filter (\<lambda>prj. status prj = Active) (contents st h)"
    and "items_of (fst (updateListeners st h)) (assignedProjects (components (fst (updateListeners st h)) f))
           = filter (\<lambda>prj. status prj = Finished) (contents st h)"
    and "projectType (components (fst (updateListeners st h)) a) = active"
    and "projectType (components (fst (updateListeners st h)) f) = finished"
proof -
  define p where "p = projects st"
  define n where "n = next_addr h"
  define h1 where "h1 = snd (slice p h)"
  define h2 where "h2 = ProjectList_listener a n h1"
  define h3 where "h3 = snd (slice p h2)"
  define h4 where "h4 = ProjectList_listener f (Suc (Suc n)) h3"
  have af: "a \<noteq> f"
    using ta tf by auto
  have pn: "p \<noteq> n" "p \<noteq> Suc n"
    using store_ok_D(1) [OF ok] by (simp_all add: p_def n_def)
  have n1: "next_addr h1 = Suc n" and o1: "objects h1 = objects h"
    and c1: "components h1 = components h"
    and a1: "arrays h1 n = arrays h p" "arrays h1 p = arrays h p"
    using pn(1) by (simp_all add: h1_def n_def slice_fields)
  have n2: "next_addr h2 = Suc (Suc n)" and o2: "objects h2 = objects h"
    and t2: "projectType (components h2 a) = active" "projectType (components h2 f) = finished"
    and s2: "assignedProjects (components h2 a) = Suc n"
    using ta tf listener_fields(1,2,3,4) [of a n h1] by (simp_all add: h2_def n1 o1 c1)
  have a2: "arrays h2 (Suc n) = filter (\<lambda>r. status (objects h r) = Active) (arrays h p)"
    "arrays h2 p = arrays h p"
    using ta pn(2) listener_fields(6) [of a n h1] listener_fields(7) [of p h1 a n]
    by (simp_all add: h2_def n1 o1 c1 a1)
  have n3: "next_addr h3 = Suc (Suc (Suc n))" and o3: "objects h3 = objects h"
    and c3: "components h3 = components h2"
    using slice_fields(2,3,4) [of p h2] by (simp_all add: h3_def n2 o2)
  have a3: "arrays h3 (Suc (Suc n)) = arrays h p"
    "arrays h3 (Suc n) = filter (\<lambda>r. status (objects h r) = Active) (arrays h p)"
    using slice_fields(5) [of p h2] slice_fields(6) [of "Suc n" h2 p]
    by (simp_all add: h3_def n2 a2)
  have o4: "objects h4 = objects h"
    and t4: "projectType (components h4 a) = active" "projectType (components h4 f) = finished"
    and s4f: "assignedProjects (components h4 f) = Suc (Suc (Suc n))"
    using listener_fields(2,3,4) [of f "Suc (Suc n)" h3] by (simp_all add: h4_def n3 o3 c3 t2)
  have s4a: "assignedProjects (components h4 a) = Suc n"
    using af listener_fields(5) [of a f "Suc (Suc n)" h3] by (simp add: h4_def c3 s2)
  have a4: "arrays h4 (Suc (Suc (Suc n))) = filter (\<lambda>r. status (objects h r) = Finished) (arrays h p)"
    "arrays h4 (Suc n) = filter (\<lambda>r. status (objects h r) = Active) (arrays h p)"
    using listener_fields(6) [of f "Suc (Suc n)" h3] listener_fields(7) [of "Suc n" h3 f "Suc (Suc n)"]
    by (simp_all add: h4_def n3 o3 c3 t2 a3)
  note s4 = s4f s4a
  have res: "fst (updateListeners st h) = h4"
    unfolding updateListeners_def ls notify_two
    by (simp only: h4_def h3_def h2_def h1_def p_def n_def slice_fields(1,2) listener_fields(1))
  show "items_of (fst (updateListeners st h)) (assignedProjects (components (fst (updateListeners st h)) a))
           = filter (\<lambda>prj. status prj = Active) (contents st h)"
    unfolding res by (simp add: items_of_def contents_def s4 a4 o4 filter_map comp_def p_def)
  show "items_of (fst (updateListeners st h)) (assignedProjects (components (fst (updateListeners st h)) f))
           = filter (\<lambda>prj. status prj = Finished) (contents st h)"
    unfolding res by (simp add: items_of_def contents_def s4 a4 o4 filter_map comp_def p_def)
  show "projectType (components (fst (updateListeners st h)) a) = active"
    "projectType (components (fst (updateListeners st h)) f) = finished"
    unfolding res using t4 by simp_all
qed

lemma find_snoc_fresh:
  assumes "\<forall>x\<in>set xs. \<not> P x" and "P y"
  shows "List.find P (xs @ [y]) = Some y"
  using assms by (induction xs) simp_all

lemma lists_after_addProject:
  fixes ts :: "number \<Rightarrow> jsstring" and random t d p st h
  assumes ok: "store_ok st h"
    and ls: "listeners st = [ProjectList_listener a, ProjectList_listener f]"
    and ta: "projectType (components h a) = active"
    and tf: "projectType (components h f) = finished"
  defines "new \<equiv> \<lparr>id' = ts random, title = t, description = d, people = p, status = Active\<rparr>"
    and "h1 \<equiv> fst (addProject ts random t d p st h)"
  shows "items_of h1 (assignedProjects (components h1 a))
           = filter (\<lambda>prj. status prj = Active) (contents st h) @ [new]"
    and "items_of h1 (assignedProjects (components h1 f))
           = filter (\<lambda>prj. status prj = Finished) (contents st h)"
    and "store_ok st h1" and "contents st h1 = contents st h @ [new]"
    and "projectType (components h1 a) = active" and "projectType (components h1 f) = finished"
proof -
  note step = addProject_step [OF ok, of ts random t d p]
  have loc: "\<forall>l\<in>set (listeners st). snapshot_local l"
    by (simp add: ls snapshot_local_ProjectList_listener)
  have ta2: "projectType (components
      (h\<lparr>objects := (objects h)(next_addr h := new), next_addr := Suc (next_addr h),
         arrays := (arrays h)(projects st := arrays h (projects st) @ [next_addr h])\<rparr>) a) = active"
    and tf2: "projectType (components
      (h\<lparr>objects := (objects h)(next_addr h := new), next_addr := Suc (next_addr h),
         arrays := (arrays h)(projects st := arrays h (projects st) @ [next_addr h])\<rparr>) f) = finished"
    using ta tf by simp_all
  note lists = lists_notified [OF step(3) ls ta2 [unfolded new_def] tf2 [unfolded new_def]]
  show "items_of h1 (assignedProjects (components h1 a))
           = filter (\<lambda>prj. status prj = Active) (contents st h) @ [new]"
    using lists(1) unfolding h1_def step(1) step(2) by (simp add: new_def)
  show "items_of h1 (assignedProjects (components h1 f))
           = filter (\<lambda>prj. status prj = Finished) (contents st h)"
    using lists(2) unfolding h1_def step(1) step(2) by (simp add: new_def)
  show "store_ok st h1"
    unfolding h1_def step(1) using step(3) loc by (rule updateListeners_frame(3))
  show "contents st h1 = contents st h @ [new]"
    unfolding h1_def step(1) new_def
    using updateListeners_frame(2) [OF step(3) loc] step(2) by simp
  show "projectType (components h1 a) = active" "projectType (components h1 f) = finished"
    unfolding h1_def step(1) using lists(3,4) by simp_all
qed

lemma lists_after_moveProject:
  assumes ok: "store_ok st h"
    and ls: "listeners st = [ProjectList_listener a, ProjectList_listener f]"
    and ta: "projectType (components h a) = active"
    and tf: "projectType (components h f) = finished"
    and cs: "contents st h = xs @ [new]"
    and fresh: "\<forall>x\<in>set xs. id' x \<noteq> id' new"
    and act: "status new = Active"
  defines "h2 \<equiv> fst (moveProject (id' new) Finished st h)"
  shows "items_of h2 (assignedProjects (components h2 a)) = filter (\<lambda>prj. status prj = Active) xs"
    and "items_of h2 (assignedProjects (components h2 f))
           = filter (\<lambda>prj. status prj = Finished) xs @ [new\<lparr>status := Finished\<rparr>]"
proof -
  have found: "List.find (\<lambda>prj. id' prj = id' new) (contents st h) = Some new"
    unfolding cs using fresh by (simp add: find_snoc_fresh)
  have differs: "status new \<noteq> Finished"
    using act by simp
  from moveProject_found [OF ok found differs]
  obtain i where i: "i < length (contents st h)" "contents st h ! i = new"
    and mv: "moveProject (id' new) Finished st h =
               updateListeners st
                 (h\<lparr>objects := (objects h)(arrays h (projects st) ! i := new\<lparr>status := Finished\<rparr>)\<rparr>)"
    and cont: "contents st (h\<lparr>objects := (objects h)(arrays h (projects st) ! i := new\<lparr>status := Finished\<rparr>)\<rparr>)
               = (contents st h)[i := new\<lparr>status := Finished\<rparr>]"
    by blast
  have "\<not> i < length xs"
  proof
    assume "i < length xs"
    then have "xs ! i \<in> set xs" "(xs @ [new]) ! i = xs ! i"
      by (simp_all add: nth_append)
    with i(2) fresh show False
      unfolding cs by auto
  qed
  with i(1) have il: "i = length xs"
    unfolding cs by simp
  define hm where "hm = h\<lparr>objects := (objects h)(arrays h (projects st) ! i := new\<lparr>status := Finished\<rparr>)\<rparr>"
  have "(xs @ [new])[length xs := new\<lparr>status := Finished\<rparr>] = xs @ [new\<lparr>status := Finished\<rparr>]"
    by simp
  with cont have cm: "contents st hm = xs @ [new\<lparr>status := Finished\<rparr>]"
    unfolding hm_def cs il by simp
  have okm: "store_ok st hm"
    using ok by (simp add: hm_def store_ok_objects_upd)
  have tam: "projectType (components hm a) = active" and tfm: "projectType (components hm f) = finished"
    using ta tf by (simp_all add: hm_def)
  note lists = lists_notified(1,2) [OF okm ls tam tfm]
  have h2: "h2 = fst (updateListeners st hm)"
    by (simp add: h2_def mv hm_def)
  show "items_of h2 (assignedProjects (components h2 a)) = filter (\<lambda>prj. status prj = Active) xs"
    unfolding h2 lists(1) cm by simp
  show "items_of h2 (assignedProjects (components h2 f))
           = filter (\<lambda>prj. status prj = Finished) xs @ [new\<lparr>status := Finished\<rparr>]"
    unfolding h2 lists(2) cm by simp
qed

lemma lists_after_move_found:
  assumes ok: "store_ok st h"
    and ls: "listeners st = [ProjectList_listener a, ProjectList_listener f]"
    and ta: "projectType (components h a) = active"
    and tf: "projectType (components h f) = finished"
    and found: "List.find (\<lambda>prj. id' prj = pid) (contents st h) = Some prj"
    and differs: "status prj \<noteq> s"
  shows "\<exists>i. i < length (contents st h) \<and> contents st h ! i = prj
      \<and> items_of (fst (moveProject pid s st h))
            (assignedProjects (components (fst (moveProject pid s st h)) a))
          = filter (\<lambda>prj. status prj = Active) ((contents st h)[i := prj\<lparr>status := s\<rparr>])
      \<and> items_of (fst (moveProject pid s st h))
            (assignedProjects (components (fst (moveProject pid s st h)) f))
          = filter (\<lambda>prj. status prj = Finished) ((contents st h)[i := prj\<lparr>status := s\<rparr>])"
proof -
  from moveProject_found [OF ok found differs]
  obtain i where i: "i < length (contents st h)" "contents st h ! i = prj"
    and mv: "moveProject pid s st h =
               updateListeners st
                 (h\<lparr>objects := (objects h)(arrays h (projects st) ! i := prj\<lparr>status := s\<rparr>)\<rparr>)"
    and cont: "contents st (h\<lparr>objects := (objects h)(arrays h (projects st) ! i := prj\<lparr>status := s\<rparr>)\<rparr>)
               = (contents st h)[i := prj\<lparr>status := s\<rparr>]"
    by blast
  define hm where "hm = h\<lparr>objects := (objects h)(arrays h (projects st) ! i := prj\<lparr>status := s\<rparr>)\<rparr>"
  have cm: "contents st hm = (contents st h)[i := prj\<lparr>status := s\<rparr>]"
    using cont by (simp add: hm_def)
  have okm: "store_ok st hm"
    using ok by (simp add: hm_def store_ok_objects_upd)
  have tam: "projectType (components hm a) = active" and tfm: "projectType (components hm f) = finished"
    using ta tf by (simp_all add: hm_def)
  note lists = lists_notified(1,2) [OF okm ls tam tfm]
  have res: "fst (moveProject pid s st h) = fst (updateListeners st hm)"
    by (simp add: mv hm_def)
  from i lists show ?thesis
    unfolding res cm by blast
qed

text \<open>
  Claim C8, as amended. The listener of a list component assigns to \<^verbatim>\<open>assignedProjects\<close> a new array
  holding exactly the projects of the array it received whose status is that of the
  component's category: \<^verbatim>\<open>Active\<close> for an \<^verbatim>\<open>"active"\<close> list, \<^verbatim>\<open>Finished\<close> for a
  \<^verbatim>\<open>"finished"\<close> list. Consequently, in a store whose listeners are those of an active
  list \<open>a\<close> and a finished list \<open>f\<close>: after \<^verbatim>\<open>addProject\<close> the active list holds the
  \<^verbatim>\<open>Active\<close> projects of the store followed by the new project, and the finished list
  holds the \<^verbatim>\<open>Finished\<close> ones; and, when the new id is not the id of an earlier project,
  after \<^verbatim>\<open>moveProject\<close> with the new id and \<^verbatim>\<open>Finished\<close> the active list no longer
  holds the new project and the finished list holds it, with its new status, at the end.
  (\<^verbatim>\<open>moveProject\<close> acts on the first project with the id.)
\<close>

theorem ProjectList_listener_subsets:
  "(projectType (components h this) = active \<longrightarrow>
      items_of (ProjectList_listener this items h)
          (assignedProjects (components (ProjectList_listener this items h) this))
        = filter (\<lambda>prj. status prj = Active) (items_of h items))
   \<and> (projectType (components h this) = finished \<longrightarrow>
      items_of (ProjectList_listener this items h)
          (assignedProjects (components (ProjectList_listener this items h) this))
        = filter (\<lambda>prj. status prj = Finished) (items_of h items))
   \<and> (store_ok st h \<and> listeners st = [ProjectList_listener a, ProjectList_listener f]
        \<and> projectType (components h a) = active \<and> projectType (components h f) = finished \<longrightarrow>
        items_of (fst (addProject ts random t d p st h))
            (assignedProjects (components (fst (addProject ts random t d p st h)) a))
          = filter (\<lambda>prj. status prj = Active) (contents st h)
              @ [\<lparr>id' = ts random, title = t, description = d, people = p, status = Active\<rparr>]
        \<and> items_of (fst (addProject ts random t d p st h))
            (assignedProjects (components (fst (addProject ts random t d p st h)) f))
          = filter (\<lambda>prj. status prj = Finished) (contents st h)
        \<and> (ts random \<notin> set (map id' (contents st h)) \<longrightarrow>
             items_of (fst (moveProject (ts random) Finished st (fst (addProject ts random t d p st h))))
                 (assignedProjects (components
                    (fst (moveProject (ts random) Finished st (fst (addProject ts random t d p st h)))) a))
               = filter (\<lambda>prj. status prj = Active) (contents st h)
             \<and> items_of (fst (moveProject (ts random) Finished st (fst (addProject ts random t d p st h))))
                 (assignedProjects (components
                    (fst (moveProject (ts random) Finished st (fst (addProject ts random t d p st h)))) f))
               = filter (\<lambda>prj. status prj = Finished) (contents st h)
                   @ [\<lparr>id' = ts random, title = t, description = d, people = p, status = Finished\<rparr>]))"
proof (intro conjI impI)
  assume "projectType (components h this) = active"
  then show "items_of (ProjectList_listener this items h)
          (assignedProjects (components (ProjectList_listener this items h) this))
        = filter (\<lambda>prj. status prj = Active) (items_of h items)"
    by (simp add: listener_result)
next
  assume "projectType (components h this) = finished"
  then show "items_of (ProjectList_listener this items h)
          (assignedProjects (components (ProjectList_listener this items h) this))
        = filter (\<lambda>prj. status prj = Finished) (items_of h items)"
    by (simp add: listener_result)
next
  assume a: "store_ok st h \<and> listeners st = [ProjectList_listener a, ProjectList_listener f]
        \<and> projectType (components h a) = active \<and> projectType (components h f) = finished"
  then show "items_of (fst (addProject ts random t d p st h))
            (assignedProjects (components (fst (addProject ts random t d p st h)) a))
          = filter (\<lambda>prj. status prj = Active) (contents st h)
              @ [\<lparr>id' = ts random, title = t, description = d, people = p, status = Active\<rparr>]"
    using lists_after_addProject(1) [of st h a f ts random t d p] by simp
next
  assume a: "store_ok st h \<and> listeners st = [ProjectList_listener a, ProjectList_listener f]
        \<and> projectType (components h a) = active \<and> projectType (components h f) = finished"
  then show "items_of (fst (addProject ts random t d p st h))
            (assignedProjects (components (fst (addProject ts random t d p st h)) f))
          = filter (\<lambda>prj. status prj = Finished) (contents st h)"
    using lists_after_addProject(2) [of st h a f ts random t d p] by simp
next
  assume a: "store_ok st h \<and> listeners st = [ProjectList_listener a, ProjectList_listener f]
        \<and> projectType (components h a) = active \<and> projectType (components h f) = finished"
    and fresh: "ts random \<notin> set (map id' (contents st h))"
  define new where "new = \<lparr>id' = ts random, title = t, description = d, people = p, status = Active\<rparr>"
  define h1 where "h1 = fst (addProject ts random t d p st h)"
  have ls: "listeners st = [ProjectList_listener a, ProjectList_listener f]"
    using a by simp
  have h1: "store_ok st h1" "contents st h1 = contents st h @ [new]"
    "projectType (components h1 a) = active" "projectType (components h1 f) = finished"
    using a lists_after_addProject(3,4,5,6) [of st h a f ts random t d p]
    by (simp_all add: h1_def new_def)
  have fr: "\<forall>x\<in>set (contents st h). id' x \<noteq> id' new"
    using fresh by (force simp: new_def)
  have act: "status new = Active"
    by (simp add: new_def)
  have idn: "id' new = ts random"
    by (simp add: new_def)
  note mv = lists_after_moveProject [OF h1(1) ls h1(3) h1(4) h1(2) fr act, unfolded idn h1_def]
  show "items_of (fst (moveProject (ts random) Finished st (fst (addProject ts random t d p st h))))
                 (assignedProjects (components
                    (fst (moveProject (ts random) Finished st (fst (addProject ts random t d p st h)))) a))
               = filter (\<lambda>prj. status prj = Active) (contents st h)"
    using mv(1) .
  show "items_of (fst (moveProject (ts random) Finished st (fst (addProject ts random t d p st h))))
                 (assignedProjects (components
                    (fst (moveProject (ts random) Finished st (fst (addProject ts random t d p st h)))) f))
               = filter (\<lambda>prj. status prj = Finished) (contents st h)
                   @ [\<lparr>id' = ts random, title = t, description = d, people = p, status = Finished\<rparr>]"
    using mv(2) by (simp add: new_def)
qed

lemma startup_facts:
  "fst startup = \<lparr>listeners = [ProjectList_listener (Suc 0), ProjectList_listener (Suc (Suc (Suc (Suc 0))))],
                  projects = 0\<rparr>"
  "fst (snd startup) = Suc 0"
  "fst (snd (snd startup)) = Suc (Suc (Suc (Suc 0)))"
  "arrays (snd (snd (snd startup))) 0 = []"
  "next_addr (snd (snd (snd startup))) = Suc (Suc (Suc (Suc (Suc (Suc (Suc 0))))))"
  "projectType (components (snd (snd (snd startup))) (Suc 0)) = active"
  "projectType (components (snd (snd (snd startup))) (Suc (Suc (Suc (Suc 0))))) = finished"
  by (simp_all add: startup_def new_ProjectState_def new_ProjectList_def new_array_def
      addListener_def empty_heap_def Let_def)

text \<open>
  Witness for C8: the program as \<^verbatim>\<open>app.ts\<close> starts it. A project \<^verbatim>\<open>"A"\<close>, \<^verbatim>\<open>"desc!!"\<close>,
  3 is created and appears in the active list; moved to \<^verbatim>\<open>Finished\<close>, it leaves the
  active list and appears in the finished list.
\<close>

theorem ProjectList_listener_subsets_witness:
  "(case startup of (st, a, f, h) \<Rightarrow>
      store_ok st h
      \<and> listeners st = [ProjectList_listener a, ProjectList_listener f]
      \<and> projectType (components h a) = active
      \<and> projectType (components h f) = finished
      \<and> contents st h = []
      \<and> items_of (fst (addProject (\<lambda>_. [0x30, 0x2E, 0x35]) (Finite (1 / 2)) [0x41]
                          [0x64, 0x65, 0x73, 0x63, 0x21, 0x21] (Finite 3) st h))
           (assignedProjects (components
              (fst (addProject (\<lambda>_. [0x30, 0x2E, 0x35]) (Finite (1 / 2)) [0x41]
                          [0x64, 0x65, 0x73, 0x63, 0x21, 0x21] (Finite 3) st h)) a))
         = [example_project]
      \<and> items_of (fst (moveProject [0x30, 0x2E, 0x35] Finished st
                          (fst (addProject (\<lambda>_. [0x30, 0x2E, 0x35]) (Finite (1 / 2)) [0x41]
                                  [0x64, 0x65, 0x73, 0x63, 0x21, 0x21] (Finite 3) st h))))
           (assignedProjects (components
              (fst (moveProject [0x30, 0x2E, 0x35] Finished st
                          (fst (addProject (\<lambda>_. [0x30, 0x2E, 0x35]) (Finite (1 / 2)) [0x41]
                                  [0x64, 0x65, 0x73, 0x63, 0x21, 0x21] (Finite 3) st h)))) a))
         = []
      \<and> items_of (fst (moveProject [0x30, 0x2E, 0x35] Finished st
                          (fst (addProject (\<lambda>_. [0x30, 0x2E, 0x35]) (Finite (1 / 2)) [0x41]
                                  [0x64, 0x65, 0x73, 0x63, 0x21, 0x21] (Finite 3) st h))))
           (assignedProjects (components
              (fst (moveProject [0x30, 0x2E, 0x35] Finished st
                          (fst (addProject (\<lambda>_. [0x30, 0x2E, 0x35]) (Finite (1 / 2)) [0x41]
                                  [0x64, 0x65, 0x73, 0x63, 0x21, 0x21] (Finite 3) st h)))) f))
         = [example_project\<lparr>status := Finished\<rparr>])"
proof -
  obtain st a f h where s: "startup = (st, a, f, h)"
    by (metis prod_cases4)
  have st: "st = \<lparr>listeners = [ProjectList_listener (Suc 0), ProjectList_listener (Suc (Suc (Suc (Suc 0))))],
                  projects = 0\<rparr>"
    and a: "a = Suc 0" and f: "f = Suc (Suc (Suc (Suc 0)))"
    and h: "arrays h 0 = []" "next_addr h = Suc (Suc (Suc (Suc (Suc (Suc (Suc 0))))))"
      "projectType (components h (Suc 0)) = active"
      "projectType (components h (Suc (Suc (Suc (Suc 0))))) = finished"
    using startup_facts unfolding s by simp_all
  have ok: "store_ok st h"
    by (simp add: store_ok_def st h)
  have ls: "listeners st = [ProjectList_listener a, ProjectList_listener f]"
    by (simp add: st a f)
  have ta: "projectType (components h a) = active" and tf: "projectType (components h f) = finished"
    by (simp_all add: a f h)
  have empty: "contents st h = []"
    by (simp add: contents_def items_of_def st h)
  from ProjectList_listener_subsets [of h a 0 st a f "\<lambda>_. [0x30, 0x2E, 0x35]" "Finite (1 / 2)" "[0x41]"
      "[0x64, 0x65, 0x73, 0x63, 0x21, 0x21]" "Finite 3"] ok ls ta tf empty
  show ?thesis
    unfolding s by (simp add: example_project_def)
qed

text \<open>
  Counterexample for C8 as stated: moving by the new project's id need not move the new
  project. From the start of the program, projects A and B are added and
  \<^verbatim>\<open>Math.random()\<close> returns \<open>0.5\<close> both times; \<^verbatim>\<open>moveProject("0.5", Finished)\<close> then
  finishes A, and B is still in the active list after the notification.
\<close>

theorem ProjectList_listener_shared_id_counterexample:
  "\<not> (\<forall>ts random t d p st a f h.
         store_ok st h \<longrightarrow> listeners st = [ProjectList_listener a, ProjectList_listener f] \<longrightarrow>
         projectType (components h a) = active \<longrightarrow> projectType (components h f) = finished \<longrightarrow>
         \<lparr>id' = ts random, title = t, description = d, people = p, status = Active\<rparr>
           \<notin> set (items_of
                 (fst (moveProject (ts random) Finished st (fst (addProject ts random t d p st h))))
                 (assignedProjects (components
                    (fst (moveProject (ts random) Finished st (fst (addProject ts random t d p st h))))
                    a)))
         \<and> \<lparr>id' = ts random, title = t, description = d, people = p, status = Finished\<rparr>
           \<in> set (items_of
                 (fst (moveProject (ts random) Finished st (fst (addProject ts random t d p st h))))
                 (assignedProjects (components
                    (fst (moveProject (ts random) Finished st (fst (addProject ts random t d p st h))))
                    f))))"
proof
  assume claim: "\<forall>ts random t d p st a f h.
         store_ok st h \<longrightarrow> listeners st = [ProjectList_listener a, ProjectList_listener f] \<longrightarrow>
         projectType (components h a) = active \<longrightarrow> projectType (components h f) = finished \<longrightarrow>
         \<lparr>id' = ts random, title = t, description = d, people = p, status = Active\<rparr>
           \<notin> set (items_of
                 (fst (moveProject (ts random) Finished st (fst (addProject ts random t d p st h))))
                 (assignedProjects (components
                    (fst (moveProject (ts random) Finished st (fst (addProject ts random t d p st h))))
                    a)))
         \<and> \<lparr>id' = ts random, title = t, description = d, people = p, status = Finished\<rparr>
           \<in> set (items_of
                 (fst (moveProject (ts random) Finished st (fst (addProject ts random t d p st h))))
                 (assignedProjects (components
                    (fst (moveProject (ts random) Finished st (fst (addProject ts random t d p st h))))
                    f)))"
  define ts :: "number \<Rightarrow> jsstring" where "ts = (\<lambda>_. [0x30, 0x2E, 0x35])"
  define A where "A = \<lparr>id' = [0x30, 0x2E, 0x35], title = [0x41], description = [0x61],
                        people = Finite 3, status = Active\<rparr>"
  define B where "B = \<lparr>id' = [0x30, 0x2E, 0x35], title = [0x42], description = [0x62],
                        people = Finite 4, status = Active\<rparr>"
  obtain st a f h0 where s: "startup = (st, a, f, h0)"
    by (metis prod_cases4)
  have st: "st = \<lparr>listeners = [ProjectList_listener (Suc 0), ProjectList_listener (Suc (Suc (Suc (Suc 0))))],
                  projects = 0\<rparr>"
    and a: "a = Suc 0" and f: "f = Suc (Suc (Suc (Suc 0)))"
    and h0: "arrays h0 0 = []" "next_addr h0 = Suc (Suc (Suc (Suc (Suc (Suc (Suc 0))))))"
      "projectType (components h0 (Suc 0)) = active"
      "projectType (components h0 (Suc (Suc (Suc (Suc 0))))) = finished"
    using startup_facts unfolding s by simp_all
  have ok0: "store_ok st h0"
    by (simp add: store_ok_def st h0)
  have ls: "listeners st = [ProjectList_listener a, ProjectList_listener f]"
    by (simp add: st a f)
  have t0: "projectType (components h0 a) = active" "projectType (components h0 f) = finished"
    by (simp_all add: a f h0)
  have c0: "contents st h0 = []"
    by (simp add: contents_def items_of_def st h0)
  define hA where "hA = fst (addProject ts (Finite (1 / 2)) [0x41] [0x61] (Finite 3) st h0)"
  define hB where "hB = fst (addProject ts (Finite (1 / 2)) [0x42] [0x62] (Finite 4) st hA)"
  define hM where "hM = fst (moveProject [0x30, 0x2E, 0x35] Finished st hB)"
  have okA: "store_ok st hA" and cA: "contents st hA = [A]"
    and tA: "projectType (components hA a) = active" "projectType (components hA f) = finished"
    using lists_after_addProject(3,4,5,6) [OF ok0 ls t0, of ts "Finite (1 / 2)" "[0x41]" "[0x61]" "Finite 3"]
    by (simp_all add: hA_def c0 A_def ts_def)
  have okB: "store_ok st hB" and cB: "contents st hB = [A, B]"
    and tB: "projectType (components hB a) = active" "projectType (components hB f) = finished"
    using lists_after_addProject(3,4,5,6) [OF okA ls tA, of ts "Finite (1 / 2)" "[0x42]" "[0x62]" "Finite 4"]
    by (simp_all add: hB_def cA B_def ts_def)
  have found: "List.find (\<lambda>prj. id' prj = [0x30, 0x2E, 0x35]) (contents st hB) = Some A"
    by (simp add: cB A_def)
  have differs: "status A \<noteq> Finished"
    by (simp add: A_def)
  from lists_after_move_found [OF okB ls tB found differs]
  obtain i where i: "i < length (contents st hB)" "contents st hB ! i = A"
    and act: "items_of hM (assignedProjects (components hM a))
          = filter (\<lambda>prj. status prj = Active) ((contents st hB)[i := A\<lparr>status := Finished\<rparr>])"
    unfolding hM_def by blast
  have "i = 0"
  proof (rule ccontr)
    assume "i \<noteq> 0"
    with i(1) have "i = 1" by (simp add: cB)
    with i(2) show False by (simp add: cB A_def B_def)
  qed
  with act have listed: "items_of hM (assignedProjects (components hM a)) = [B]"
    by (simp add: cB A_def B_def)
  from claim okA ls tA
  have "\<lparr>id' = ts (Finite (1 / 2)), title = [0x42], description = [0x62], people = Finite 4,
          status = Active\<rparr>
      \<notin> set (items_of
            (fst (moveProject (ts (Finite (1 / 2))) Finished st
                   (fst (addProject ts (Finite (1 / 2)) [0x42] [0x62] (Finite 4) st hA))))
            (assignedProjects (components
               (fst (moveProject (ts (Finite (1 / 2))) Finished st
                      (fst (addProject ts (Finite (1 / 2)) [0x42] [0x62] (Finite 4) st hA))))
               a)))"
    by blast
  then have "B \<notin> set (items_of hM (assignedProjects (components hM a)))"
    by (simp add: hM_def hB_def B_def ts_def)
  with listed show False
    by simp
qed

end
